theory Spec2Isabelle
  imports Complex_Main "HOL-Library.Log_Nat"
begin

section \<open>Python values the script relies on\<close>

text \<open>
  The script \<^verbatim>\<open>openmlpimp/plot/kde.py\<close> is glue over numpy, matplotlib, liac-arff and
  the openmlpimp utilities. Exceptions are values of \<open>py_error\<close>; a function that may
  raise returns \<open>py_error + 'a\<close> with \<open>Inl\<close> for the exception.
\<close>

datatype py_error =
  IndexError | KeyError | ValueError | ZeroDivisionError | FileExistsError | OtherError string

text \<open>\<^verbatim>\<open>xs[i]\<close> on a Python list: a negative index counts from the end, an index out of
  range raises \<^verbatim>\<open>IndexError\<close>.\<close>

definition list_getitem :: "'a list \<Rightarrow> int \<Rightarrow> py_error + 'a" where
  "list_getitem xs i =
     (let j = (if i < 0 then int (length xs) + i else i)
      in if 0 \<le> j \<and> j < int (length xs) then Inr (xs ! nat j) else Inl IndexError)"

text \<open>\<^verbatim>\<open>s.startswith(p)\<close> and \<^verbatim>\<open>sub in s\<close> on strings.\<close>

definition startswith :: "string \<Rightarrow> string \<Rightarrow> bool" where
  "startswith s p = (take (length p) s = p)"

fun str_contains :: "string \<Rightarrow> string \<Rightarrow> bool" where
  "str_contains [] sub = (sub = [])"
| "str_contains (c # cs) sub = (startswith (c # cs) sub \<or> str_contains cs sub)"

text \<open>\<^verbatim>\<open>s.split(sep)\<close>: the string is scanned from the left; at each position where
  \<^verbatim>\<open>sep\<close> starts the current piece is closed and the scan resumes after the separator.
  The pieces always form a non-empty list. An empty separator raises \<^verbatim>\<open>ValueError\<close>.\<close>

fun split_from :: "string \<Rightarrow> string \<Rightarrow> string \<Rightarrow> string list" where
  "split_from sep piece [] = [piece]"
| "split_from sep piece (c # cs) =
     (if startswith (c # cs) sep
      then piece # split_from sep [] (drop (length sep - 1) cs)
      else split_from sep (piece @ [c]) cs)"

definition str_split :: "string \<Rightarrow> string \<Rightarrow> py_error + string list" where
  "str_split s sep = (if sep = [] then Inl ValueError else Inr (split_from sep [] s))"

text \<open>A \<^verbatim>\<open>dict\<close> keeps its keys in insertion order: an association list with distinct
  keys. \<^verbatim>\<open>d[k] = v\<close> replaces the value of a present key in place and appends a new key
  at the end.\<close>

type_synonym ('k, 'v) pydict = "('k \<times> 'v) list"

fun dict_setitem :: "('k, 'v) pydict \<Rightarrow> 'k \<Rightarrow> 'v \<Rightarrow> ('k, 'v) pydict" where
  "dict_setitem [] k v = [(k, v)]"
| "dict_setitem ((k', v') # d) k v =
     (if k' = k then (k, v) # d else (k', v') # dict_setitem d k v)"

definition dict_contains :: "('k, 'v) pydict \<Rightarrow> 'k \<Rightarrow> bool" where
  "dict_contains d k = (map_of d k \<noteq> None)"

definition dict_getitem :: "('k, 'v) pydict \<Rightarrow> 'k \<Rightarrow> py_error + 'v" where
  "dict_getitem d k = (case map_of d k of None \<Rightarrow> Inl KeyError | Some v \<Rightarrow> Inr v)"

text \<open>\<^verbatim>\<open>collections.defaultdict(list)\<close>: reading a missing key stores the empty list
  under it and returns it, so the read never raises; the dictionary is returned updated.\<close>

definition defaultdict_getitem ::
  "('k, 'v list) pydict \<Rightarrow> 'k \<Rightarrow> 'v list \<times> ('k, 'v list) pydict" where
  "defaultdict_getitem d k =
     (case map_of d k of None \<Rightarrow> ([], dict_setitem d k []) | Some v \<Rightarrow> (v, d))"

text \<open>\<^verbatim>\<open>d[k].extend(xs)\<close> on a \<^verbatim>\<open>defaultdict(list)\<close>: the list stored under \<open>k\<close>
  (created empty when missing) grows by \<open>xs\<close> at its end.\<close>

definition defaultdict_extend ::
  "('k, 'v list) pydict \<Rightarrow> 'k \<Rightarrow> 'v list \<Rightarrow> ('k, 'v list) pydict" where
  "defaultdict_extend d k xs =
     (case defaultdict_getitem d k of (v, d') \<Rightarrow> dict_setitem d' k (v @ xs))"

section \<open>The archived-sample parser\<close>

text \<open>What \<^verbatim>\<open>arff.load\<close> returns: the attribute declarations (name and type) and the
  data rows. The type of the cell values is left open.\<close>

record 'v arff_file =
  attributes :: "(string \<times> string) list"
  data :: "'v list list"

text \<open>The file system as the parser sees it: \<^verbatim>\<open>glob.glob\<close> lists the paths matching a
  pattern, and opening and loading a path either raises or gives the parsed file.\<close>

record 'v filesystem =
  fs_glob :: "string \<Rightarrow> string list"
  fs_load :: "string \<Rightarrow> py_error + 'v arff_file"

text \<open>\<^verbatim>\<open>[arff_file['data'][x][idx] for x in range(len(arff_file['data']))]\<close>: the column
  \<open>idx\<close> of the rows, raising on the first row that is too short.\<close>

fun column :: "'v list list \<Rightarrow> nat \<Rightarrow> py_error + 'v list" where
  "column [] idx = Inr []"
| "column (row # rows) idx =
     (case list_getitem row (int idx) of
        Inl e \<Rightarrow> Inl e
      | Inr v \<Rightarrow> (case column rows idx of Inl e \<Rightarrow> Inl e | Inr vs \<Rightarrow> Inr (v # vs)))"

text \<open>\<^verbatim>\<open>attribute_name.split('__')[-1]\<close>.\<close>

definition canonical_name :: "string \<Rightarrow> py_error + string" where
  "canonical_name attribute_name =
     (case str_split attribute_name ''__'' of
        Inl e \<Rightarrow> Inl e
      | Inr pieces \<Rightarrow> list_getitem pieces (- 1))"

text \<open>The inner loop over \<^verbatim>\<open>enumerate(arff_file['attributes'])\<close>.\<close>

fun attributes_loop ::
  "'v arff_file \<Rightarrow> (nat \<times> string \<times> string) list \<Rightarrow> (string, 'v list) pydict
     \<Rightarrow> py_error + (string, 'v list) pydict" where
  "attributes_loop arff [] values = Inr values"
| "attributes_loop arff ((idx, attribute) # rest) values =
     (let attribute_name = fst attribute in
      if startswith attribute_name ''parameter_'' then
        (case canonical_name attribute_name of
           Inl e \<Rightarrow> Inl e
         | Inr cname \<Rightarrow>
             (case column (data arff) idx of
                Inl e \<Rightarrow> Inl e
              | Inr col \<Rightarrow> attributes_loop arff rest (defaultdict_extend values cname col)))
      else attributes_loop arff rest values)"

text \<open>The outer loop over the files the glob returned.\<close>

fun files_loop ::
  "'v filesystem \<Rightarrow> string list \<Rightarrow> (string, 'v list) pydict
     \<Rightarrow> py_error + (string, 'v list) pydict" where
  "files_loop fs [] values = Inr values"
| "files_loop fs (file # files) values =
     (case fs_load fs file of
        Inl e \<Rightarrow> Inl e
      | Inr arff \<Rightarrow>
          (case attributes_loop arff (enumerate 0 (attributes arff)) values of
             Inl e \<Rightarrow> Inl e
           | Inr values' \<Rightarrow> files_loop fs files values'))"

definition obtain_sampled_parameters ::
  "'v filesystem \<Rightarrow> string \<Rightarrow> py_error + (string, 'v list) pydict" where
  "obtain_sampled_parameters fs directory =
     files_loop fs (fs_glob fs (directory @ ''/*/*.arff'')) []"

text \<open>The text after the last occurrence of a separator in a string, when there is one.\<close>

fun after_last :: "string \<Rightarrow> string \<Rightarrow> string option" where
  "after_last sep [] = None"
| "after_last sep (c # cs) =
     (case after_last sep cs of
        Some t \<Rightarrow> Some t
      | None \<Rightarrow> if startswith (c # cs) sep then Some (drop (length sep) (c # cs)) else None)"

text \<open>The key the specification names: the substring after the last \<^verbatim>\<open>__\<close> of the
  attribute name, the whole name when it has no \<^verbatim>\<open>__\<close>.\<close>

definition spec_key :: "string \<Rightarrow> string" where
  "spec_key attribute_name =
     (case after_last ''__'' attribute_name of None \<Rightarrow> attribute_name | Some t \<Rightarrow> t)"

text \<open>The values the parser is specified to collect under a key: for each file in glob
  order, for each attribute in declaration order whose name starts with
  \<^verbatim>\<open>parameter_\<close> and whose last \<^verbatim>\<open>__\<close>-piece is the key, the attribute's column in
  row order.\<close>

definition spec_file_values :: "'v arff_file \<Rightarrow> string \<Rightarrow> 'v list" where
  "spec_file_values arff k =
     concat (map (\<lambda>(idx, attribute).
        if startswith (fst attribute) ''parameter_'' \<and> canonical_name (fst attribute) = Inr k
        then map (\<lambda>row. row ! idx) (data arff) else [])
       (enumerate 0 (attributes arff)))"

definition spec_sampled_values :: "'v filesystem \<Rightarrow> string list \<Rightarrow> string \<Rightarrow> 'v list" where
  "spec_sampled_values fs files k =
     concat (map (\<lambda>file. case fs_load fs file of
                            Inl e \<Rightarrow> []
                          | Inr arff \<Rightarrow> spec_file_values arff k) files)"

section \<open>Hyperparameters, samples and the libraries behind the plots\<close>

text \<open>A numerical hyperparameter of the configuration space: its name, its declared
  bounds and its log-scale flag. The other kinds carry nothing the script reads.\<close>

record numerical_hyperparameter =
  hp_name :: string
  lower :: real
  upper :: real
  log_scale :: bool

datatype hyperparameter =
    NumericalHyperparameter numerical_hyperparameter
  | CategoricalHyperparameter
  | Constant

text \<open>A sample sequence handed to the numeric plotter is either the raw Python list of
  prior values or a \<^verbatim>\<open>float64\<close> array.\<close>

datatype 'v samples = RawList "'v list" | Float64Array "real list"

text \<open>The libraries the script calls, and the floating-point arithmetic of the interpreter
  and of numpy. A finite \<^verbatim>\<open>float64\<close> is the real number it denotes; every operation on
  floats rounds its exact result, and the rounded operations are fields of the record, so
  that what is proved of the script holds whatever the rounding is. \<open>example_libs\<close> below
  gives them for IEEE binary64.
  \<^item> \<open>makedirs\<close>, \<open>savefig\<close>: \<open>None\<close> on success, the exception otherwise;
  \<^item> \<open>float64\<close>: numpy's conversion of one cell to \<^verbatim>\<open>float64\<close>;
  \<^item> \<open>np_power\<close>: \<^verbatim>\<open>np.power\<close>;
  \<^item> \<open>kde_pdf\<close>: \<^verbatim>\<open>gaussian_kde_wrapper(hyperparameter, name, samples).pdf(xs)\<close>;
  \<^item> \<open>np_random\<close>: \<^verbatim>\<open>np.random.random(n)\<close>;
  \<^item> \<open>rvs\<close>: \<^verbatim>\<open>rv_discrete(values=(xk, pk)).rvs(size=n)\<close>;
  \<^item> \<open>xscale_log\<close>: \<^verbatim>\<open>plt.xscale("log", log=2)\<close>;
  \<^item> \<open>to_float\<close>: the conversion of a Python number (an \<^verbatim>\<open>int\<close> or a
    \<^verbatim>\<open>float\<close>) to \<^verbatim>\<open>float64\<close>;
  \<^item> \<open>fadd\<close>, \<open>fsub\<close>, \<open>fmul\<close>, \<open>fdiv\<close>: \<^verbatim>\<open>+\<close>, \<^verbatim>\<open>-\<close>, \<^verbatim>\<open>*\<close>, \<^verbatim>\<open>/\<close> on
    \<^verbatim>\<open>float64\<close> (the divisor of \<open>fdiv\<close> is not zero);
  \<^item> \<open>flt\<close>: \<^verbatim>\<open><\<close> between a \<^verbatim>\<open>float64\<close> and a Python number.\<close>

record 'v libs =
  makedirs :: "string \<Rightarrow> py_error option"
  savefig :: "string \<Rightarrow> py_error option"
  float64 :: "'v \<Rightarrow> py_error + real"
  np_power :: "real \<Rightarrow> real \<Rightarrow> real"
  kde_pdf :: "numerical_hyperparameter \<Rightarrow> string \<Rightarrow> 'v samples \<Rightarrow> real list
                \<Rightarrow> py_error + real list"
  np_random :: "nat \<Rightarrow> real list"
  rvs :: "nat list \<Rightarrow> real list \<Rightarrow> nat \<Rightarrow> py_error + nat list"
  xscale_log :: "py_error option"
  to_float :: "real \<Rightarrow> real"
  fadd :: "real \<Rightarrow> real \<Rightarrow> real"
  fsub :: "real \<Rightarrow> real \<Rightarrow> real"
  fmul :: "real \<Rightarrow> real \<Rightarrow> real"
  fdiv :: "real \<Rightarrow> real \<Rightarrow> real"
  flt :: "real \<Rightarrow> real \<Rightarrow> bool"

text \<open>\<^verbatim>\<open>try: os.makedirs(output_dir) except FileExistsError: pass\<close>.\<close>

definition ensure_dir :: "'v libs \<Rightarrow> string \<Rightarrow> py_error option" where
  "ensure_dir L output_dir =
     (case makedirs L output_dir of
        None \<Rightarrow> None
      | Some e \<Rightarrow> if e = FileExistsError then None else Some e)"

text \<open>\<^verbatim>\<open>np.array(xs)\<close> on a sample sequence, and its length.\<close>

fun float64_list :: "'v libs \<Rightarrow> 'v list \<Rightarrow> py_error + real list" where
  "float64_list L [] = Inr []"
| "float64_list L (x # xs) =
     (case float64 L x of
        Inl e \<Rightarrow> Inl e
      | Inr r \<Rightarrow> (case float64_list L xs of Inl e \<Rightarrow> Inl e | Inr rs \<Rightarrow> Inr (r # rs)))"

fun np_array :: "'v libs \<Rightarrow> 'v samples \<Rightarrow> py_error + real list" where
  "np_array L (RawList xs) = float64_list L xs"
| "np_array L (Float64Array rs) = Inr rs"

fun samples_len :: "'v samples \<Rightarrow> nat" where
  "samples_len (RawList xs) = length xs"
| "samples_len (Float64Array rs) = length rs"

text \<open>\<^verbatim>\<open>np.linspace(start, stop, num)\<close>, as numpy computes it: both ends are multiplied
  by \<^verbatim>\<open>1.0\<close>, the step is \<^verbatim>\<open>(stop - start) / (num - 1)\<close>, the \<open>i\<close>-th point is
  \<^verbatim>\<open>i * step + start\<close> (or \<^verbatim>\<open>i / (num - 1) * (stop - start) + start\<close> when the step
  rounds to zero), and the last point is then overwritten by \<^verbatim>\<open>stop\<close>. With at most one
  point there is no step and the point is \<^verbatim>\<open>i * (stop - start) + start\<close>.\<close>

definition linspace_point :: "'v libs \<Rightarrow> real \<Rightarrow> real \<Rightarrow> nat \<Rightarrow> nat \<Rightarrow> real" where
  "linspace_point L start stop num i =
     (let s = fmul L start 1;
          t = fmul L stop 1;
          dv = to_float L (real (num - 1));
          delta = fsub L t s;
          y = (if 1 < num then
                 (let step = fdiv L delta dv
                  in if step = 0 then fmul L (fdiv L (to_float L (real i)) dv) delta
                     else fmul L (to_float L (real i)) step)
               else fmul L (to_float L (real i)) delta)
      in fadd L y s)"

definition linspace :: "'v libs \<Rightarrow> real \<Rightarrow> real \<Rightarrow> nat \<Rightarrow> real list" where
  "linspace L start stop num =
     (let y = map (linspace_point L start stop num) [0..<num]
      in if 1 < num then y[num - 1 := fmul L stop 1] else y)"

section \<open>The categorical plotter\<close>

text \<open>\<^verbatim>\<open>a / b\<close> on a float and a Python number: the divisor is converted to a float, a
  zero divisor raises, the quotient is rounded.\<close>

definition truediv :: "'v libs \<Rightarrow> real \<Rightarrow> real \<Rightarrow> py_error + real" where
  "truediv L a b = (if b = 0 then Inl ZeroDivisionError else Inr (fdiv L a (to_float L b)))"

text \<open>The loop that fills the ordered dictionary \<^verbatim>\<open>X_prime\<close>; \<open>n\<close> is \<^verbatim>\<open>len(X)\<close>.
  The augmented assignment reads the entry, evaluates the increment \<^verbatim>\<open>1.0 / len(X)\<close> and
  stores the rounded sum; the integer \<^verbatim>\<open>0\<close> a new entry starts from is the float zero in
  the first sum.\<close>

fun X_prime_loop ::
  "'v libs \<Rightarrow> 'a list \<Rightarrow> nat \<Rightarrow> ('a, real) pydict \<Rightarrow> py_error + ('a, real) pydict" where
  "X_prime_loop L [] n X_prime = Inr X_prime"
| "X_prime_loop L (v # rest) n X_prime =
     (let X_prime1 = (if \<not> dict_contains X_prime v then dict_setitem X_prime v 0 else X_prime)
      in case dict_getitem X_prime1 v of
           Inl e \<Rightarrow> Inl e
         | Inr current \<Rightarrow>
             (case truediv L 1 (real n) of
                Inl e \<Rightarrow> Inl e
              | Inr inc \<Rightarrow>
                  X_prime_loop L rest n (dict_setitem X_prime1 v (fadd L current inc))))"

definition frequency_map :: "'v libs \<Rightarrow> 'a list \<Rightarrow> py_error + ('a, real) pydict" where
  "frequency_map L X = X_prime_loop L X (length X) []"

text \<open>The histogram the categorical plotter draws and saves.\<close>

record histogram =
  hist_values :: "nat list"
  hist_range :: "nat \<times> nat"
  hist_legend :: "string option"

definition plot_categorical ::
  "'v libs \<Rightarrow> 'v list \<Rightarrow> string \<Rightarrow> string \<Rightarrow> py_error + string \<times> histogram" where
  "plot_categorical L X output_dir parameter_name =
     (case ensure_dir L output_dir of
        Some e \<Rightarrow> Inl e
      | None \<Rightarrow>
          (case frequency_map L X of
             Inl e \<Rightarrow> Inl e
           | Inr X_prime \<Rightarrow>
               (case rvs L [0..<length X_prime] (map snd X_prime) 100 of
                  Inl e \<Rightarrow> Inl e
                | Inr draws \<Rightarrow>
                    (case savefig L (output_dir @ parameter_name @ ''.png'') of
                       Some e \<Rightarrow> Inl e
                     | None \<Rightarrow>
                         Inr (output_dir @ parameter_name @ ''.png'',
                              \<lparr>hist_values = draws, hist_range = (0, length X_prime),
                               hist_legend = Some ''upper left''\<rparr>)))))"

text \<open>The first-seen order of the distinct values of a sequence.\<close>

fun first_seen :: "'a list \<Rightarrow> 'a list" where
  "first_seen [] = []"
| "first_seen (x # xs) = x # removeAll x (first_seen xs)"

section \<open>The numeric plotter\<close>

text \<open>What is drawn on one subplot: the curves in drawing order (x data, y data, format
  or colour, label), the legend when one was attached, and the x limits when set.\<close>

datatype artist =
    PlotLine (xdata: "real list") (ydata: "real list") (style: string) (label: "string option")
  | StepLine (xdata: "real list") (ydata: "real list") (style: string) (label: "string option")

record axes =
  artists :: "artist list"
  legend :: "string option"
  xlim :: "(real \<times> real) option"

record figure =
  ax0 :: axes
  ax1 :: axes
  log_x :: bool

definition empty_axes :: axes where
  "empty_axes = \<lparr>artists = [], legend = None, xlim = None\<rparr>"

definition subplots :: figure where
  "subplots = \<lparr>ax0 = empty_axes, ax1 = empty_axes, log_x = False\<rparr>"

definition add_artist :: "axes \<Rightarrow> artist \<Rightarrow> axes" where
  "add_artist ax a = ax\<lparr>artists := artists ax @ [a]\<rparr>"

text \<open>\<^verbatim>\<open>factor = 1.0\<close> and \<^verbatim>\<open>lines = ['r', 'b', 'g']\<close>.\<close>

definition factor :: real where
  "factor = 1"

definition lines :: "string list" where
  "lines = [''r'', ''b'', ''g'']"

text \<open>The plotting range: \<^verbatim>\<open>min\<close> and \<^verbatim>\<open>max\<close> after the safeguard. The declared
  bounds are Python numbers; \<^verbatim>\<open>hyperparameter.upper * factor\<close> converts the bound to a float
  and rounds the product.\<close>

definition plot_range :: "'v libs \<Rightarrow> numerical_hyperparameter \<Rightarrow> real \<times> real" where
  "plot_range L hyperparameter =
     (let min0 = np_power L (lower hyperparameter) factor;
          max0 = np_power L (upper hyperparameter) factor;
          max1 = (if flt L max0 (upper hyperparameter)
                  then fmul L (to_float L (upper hyperparameter)) factor else max0)
      in (min0, max1))"

definition X_values_plot :: "'v libs \<Rightarrow> numerical_hyperparameter \<Rightarrow> real list" where
  "X_values_plot L hyperparameter =
     (case plot_range L hyperparameter of (min0, max1) \<Rightarrow> linspace L min0 max1 1000)"

text \<open>\<^verbatim>\<open>np.arange(1, len(sorted) + 1) / float(len(sorted))\<close>; on an empty array numpy
  returns the empty array.\<close>

definition cdf_yvals :: "'v libs \<Rightarrow> nat \<Rightarrow> real list" where
  "cdf_yvals L n = map (\<lambda>i. fdiv L (to_float L (real i)) (to_float L (real n))) [1..<n + 1]"

text \<open>The loop over \<^verbatim>\<open>enumerate(data)\<close>: the density curve on the first subplot, the
  empirical distribution function on the second, both in the colour \<^verbatim>\<open>lines[index]\<close>.\<close>

fun strategies_loop ::
  "'v libs \<Rightarrow> numerical_hyperparameter \<Rightarrow> (nat \<times> string \<times> 'v samples) list \<Rightarrow> figure
     \<Rightarrow> py_error + figure" where
  "strategies_loop L hyperparameter [] fig = Inr fig"
| "strategies_loop L hyperparameter ((index, strategy, smp) # rest) fig =
     (case kde_pdf L hyperparameter (hp_name hyperparameter) smp
             (X_values_plot L hyperparameter) of
        Inl e \<Rightarrow> Inl e
      | Inr density \<Rightarrow>
          (case list_getitem lines (int index) of
             Inl e \<Rightarrow> Inl e
           | Inr colour \<Rightarrow>
               (let fig1 = fig\<lparr>ax0 := add_artist (ax0 fig)
                      (PlotLine (X_values_plot L hyperparameter) density (colour @ ''-'')
                         (Some strategy))\<rparr>
                in case np_array L smp of
                     Inl e \<Rightarrow> Inl e
                   | Inr arr \<Rightarrow>
                       (case list_getitem lines (int index) of
                          Inl e \<Rightarrow> Inl e
                        | Inr colour1 \<Rightarrow>
                            strategies_loop L hyperparameter rest
                              (fig1\<lparr>ax1 := add_artist (ax1 fig1)
                                 (StepLine (sort arr) (cdf_yvals L (length arr)) colour1
                                    (Some strategy))\<rparr>)))))"

text \<open>The raw prior points below the axis, when \<^verbatim>\<open>'gaussian_kde' in data\<close>.\<close>

definition add_original_points ::
  "'v libs \<Rightarrow> (string, 'v samples) pydict \<Rightarrow> figure \<Rightarrow> py_error + figure" where
  "add_original_points L strategy_data fig =
     (case map_of strategy_data ''gaussian_kde'' of
        None \<Rightarrow> Inr fig
      | Some smp \<Rightarrow>
          (case np_array L smp of
             Inl e \<Rightarrow> Inl e
           | Inr xs \<Rightarrow>
               Inr (fig\<lparr>ax0 := add_artist (ax0 fig)
                      (PlotLine xs
                         (map (\<lambda>r. fsub L (to_float L (- 0.005)) (fmul L (to_float L 0.01) r))
                            (np_random L (samples_len smp)))
                         ''+k'' None)\<rparr>)))"

definition plot_numeric ::
  "'v libs \<Rightarrow> numerical_hyperparameter \<Rightarrow> (string, 'v samples) pydict \<Rightarrow> string \<Rightarrow> string
     \<Rightarrow> py_error + string \<times> figure" where
  "plot_numeric L hyperparameter strategy_data output_dir parameter_name =
     (case ensure_dir L output_dir of
        Some e \<Rightarrow> Inl e
      | None \<Rightarrow>
          (case strategies_loop L hyperparameter
                  (enumerate 0 strategy_data) subplots of
             Inl e \<Rightarrow> Inl e
           | Inr fig1 \<Rightarrow>
               (case add_original_points L strategy_data fig1 of
                  Inl e \<Rightarrow> Inl e
                | Inr fig2 \<Rightarrow>
                    (let fig3 = fig2\<lparr>ax1 := (ax1 fig2)\<lparr>legend := Some ''upper left''\<rparr>\<rparr>;
                         fig4 = fig3\<lparr>ax0 := (ax0 fig3)\<lparr>xlim := Some (plot_range L hyperparameter)\<rparr>\<rparr>
                     in case (if log_scale hyperparameter then xscale_log L else None) of
                          Some e \<Rightarrow> Inl e
                        | None \<Rightarrow>
                            (case savefig L (output_dir @ parameter_name @ ''.png'') of
                               Some e \<Rightarrow> Inl e
                             | None \<Rightarrow>
                                 Inr (output_dir @ parameter_name @ ''.png'',
                                      fig4\<lparr>log_x := log_scale hyperparameter\<rparr>))))))"

section \<open>The orchestrator\<close>

text \<open>The parsed command line, and the values of the JSON object of fixed parameters.\<close>

datatype json = JInt int | JStr string

record args =
  flow_id :: int
  study_id :: string
  classifier :: string
  fixed_parameters :: "(string, json) pydict option"
  bestN :: int
  cache_directory :: string
  output_directory :: string
  result_directory :: string

text \<open>The arguments of the call of \<^verbatim>\<open>openmlpimp.utils.obtain_priors\<close>.\<close>

record priors_request =
  req_cache_dir :: string
  req_study_id :: string
  req_flow_id :: int
  req_fixed_parameters :: "(string, json) pydict option"
  req_holdout :: "nat option"
  req_bestN :: int

text \<open>\<^verbatim>\<open>important_parameters\<close>: a copy of the fixed parameters with the best-N count of
  the command line stored under \<^verbatim>\<open>'bestN'\<close>. It names the output and result folders.\<close>

definition important_parameters :: "args \<Rightarrow> (string, json) pydict" where
  "important_parameters a =
     dict_setitem (case fixed_parameters a of None \<Rightarrow> [] | Some d \<Rightarrow> d)
       ''bestN'' (JInt (bestN a))"

text \<open>The folders; \<open>to_suffix\<close> is \<^verbatim>\<open>openmlpimp.utils.fixed_parameters_to_suffix\<close>.\<close>

definition output_dir_of ::
  "((string, json) pydict option \<Rightarrow> string) \<Rightarrow> args \<Rightarrow> string" where
  "output_dir_of to_suffix a =
     output_directory a @ ''/'' @ classifier a @ ''/'' @ to_suffix (Some (important_parameters a))"

definition cache_dir_of ::
  "((string, json) pydict option \<Rightarrow> string) \<Rightarrow> args \<Rightarrow> string" where
  "cache_dir_of to_suffix a =
     cache_directory a @ ''/'' @ classifier a @ ''/'' @ to_suffix (fixed_parameters a)"

definition results_dir_of ::
  "((string, json) pydict option \<Rightarrow> string) \<Rightarrow> args \<Rightarrow> string" where
  "results_dir_of to_suffix a =
     result_directory a @ ''/'' @ classifier a @ ''/'' @ to_suffix (Some (important_parameters a))"

text \<open>The call \<^verbatim>\<open>obtain_priors(cache_dir, args.study_id, args.flow_id, hyperparameters,
  args.fixed_parameters, holdout=None, bestN=10)\<close>.\<close>

definition obtain_priors_request ::
  "((string, json) pydict option \<Rightarrow> string) \<Rightarrow> args \<Rightarrow> priors_request" where
  "obtain_priors_request to_suffix a =
     \<lparr>req_cache_dir = cache_dir_of to_suffix a,
      req_study_id = study_id a,
      req_flow_id = flow_id a,
      req_fixed_parameters = fixed_parameters a,
      req_holdout = None,
      req_bestN = 10\<rparr>"

text \<open>\<^verbatim>\<open>all(x == priors[0] for x in priors)\<close>: the generator evaluates \<^verbatim>\<open>priors[0]\<close>
  once for each element it yields, and \<^verbatim>\<open>all\<close> stops at the first false value.\<close>

fun all_equal_first :: "'v list \<Rightarrow> 'v list \<Rightarrow> py_error + bool" where
  "all_equal_first priors [] = Inr True"
| "all_equal_first priors (x # xs) =
     (case list_getitem priors 0 of
        Inl e \<Rightarrow> Inl e
      | Inr p0 \<Rightarrow> if x = p0 then all_equal_first priors xs else Inr False)"

definition degenerate :: "'v list \<Rightarrow> py_error + bool" where
  "degenerate priors = all_equal_first priors priors"

text \<open>The assembly of the numeric plotter's data: the priors under \<^verbatim>\<open>'gaussian_kde'\<close>,
  then for each strategy the samples read from its collection, converted to
  \<^verbatim>\<open>float64\<close>. The collections are default dictionaries, so reading them may add a
  key; they are returned updated.\<close>

fun strategy_loop ::
  "'v libs \<Rightarrow> string \<Rightarrow> string list \<Rightarrow> (string, (string, 'v list) pydict) pydict
     \<Rightarrow> (string, 'v samples) pydict
     \<Rightarrow> py_error + (string, 'v samples) pydict \<times> (string, (string, 'v list) pydict) pydict"
  where
  "strategy_loop L param_name [] obtained_results strategy_data =
     Inr (strategy_data, obtained_results)"
| "strategy_loop L param_name (strategy # rest) obtained_results strategy_data =
     (case dict_getitem obtained_results strategy of
        Inl e \<Rightarrow> Inl e
      | Inr collection \<Rightarrow>
          (case defaultdict_getitem collection param_name of
             (vs, collection1) \<Rightarrow>
               (case float64_list L vs of
                  Inl e \<Rightarrow> Inl e
                | Inr arr \<Rightarrow>
                    strategy_loop L param_name rest
                      (dict_setitem obtained_results strategy collection1)
                      (dict_setitem strategy_data strategy (Float64Array arr)))))"

definition assemble_data ::
  "'v libs \<Rightarrow> string \<Rightarrow> 'v list \<Rightarrow> (string, (string, 'v list) pydict) pydict
     \<Rightarrow> py_error + (string, 'v samples) pydict \<times> (string, (string, 'v list) pydict) pydict"
  where
  "assemble_data L param_name priors obtained_results =
     strategy_loop L param_name (map fst obtained_results) obtained_results
       [(''gaussian_kde'', RawList priors)]"

text \<open>A call of one of the two plotters, with its arguments and what it returned: the
  path of the written file or the exception.\<close>

datatype 'v plot_call =
    CallNumeric numerical_hyperparameter "(string, 'v samples) pydict" string string
  | CallCategorical "'v list" string string

fun call_parameter :: "'v plot_call \<Rightarrow> string" where
  "call_parameter (CallNumeric h d out p) = p"
| "call_parameter (CallCategorical X out p) = p"

text \<open>The loop over \<^verbatim>\<open>param_priors.items()\<close>. It returns the plotter calls made, in
  order, each with its result, and the exception that ended the run, if any.\<close>

fun parameters_loop ::
  "'v libs \<Rightarrow> (string, hyperparameter) pydict \<Rightarrow> string
     \<Rightarrow> (string \<times> 'v list) list \<Rightarrow> (string, (string, 'v list) pydict) pydict
     \<Rightarrow> ('v plot_call \<times> (py_error + string)) list \<times> py_error option" where
  "parameters_loop L hyperparameters output_dir [] obtained_results = ([], None)"
| "parameters_loop L hyperparameters output_dir ((param_name, priors) # rest) obtained_results =
     (case degenerate priors of
        Inl e \<Rightarrow> ([], Some e)
      | Inr True \<Rightarrow> parameters_loop L hyperparameters output_dir rest obtained_results
      | Inr False \<Rightarrow>
          (case dict_getitem hyperparameters param_name of
             Inl e \<Rightarrow> ([], Some e)
           | Inr (NumericalHyperparameter h) \<Rightarrow>
               (case assemble_data L param_name priors obtained_results of
                  Inl e \<Rightarrow> ([], Some e)
                | Inr (strategy_data, obtained_results1) \<Rightarrow>
                    (case plot_numeric L h strategy_data (output_dir @ ''/'') param_name of
                       Inl e \<Rightarrow>
                         ([(CallNumeric h strategy_data (output_dir @ ''/'') param_name, Inl e)],
                          Some e)
                     | Inr (path, fig) \<Rightarrow>
                         (case parameters_loop L hyperparameters output_dir rest
                                 obtained_results1 of
                            (calls, err) \<Rightarrow>
                              ((CallNumeric h strategy_data (output_dir @ ''/'') param_name,
                                Inr path) # calls, err))))
           | Inr CategoricalHyperparameter \<Rightarrow>
               (case plot_categorical L priors (output_dir @ ''/'') param_name of
                  Inl e \<Rightarrow>
                    ([(CallCategorical priors (output_dir @ ''/'') param_name, Inl e)], Some e)
                | Inr (path, h) \<Rightarrow>
                    (case parameters_loop L hyperparameters output_dir rest obtained_results of
                       (calls, err) \<Rightarrow>
                         ((CallCategorical priors (output_dir @ ''/'') param_name, Inr path)
                            # calls, err)))
           | Inr Constant \<Rightarrow>
               parameters_loop L hyperparameters output_dir rest obtained_results))"

section \<open>IEEE binary64 arithmetic\<close>

text \<open>Rounding to the nearest integer, ties to the even one.\<close>

definition round_half_even :: "real \<Rightarrow> int" where
  "round_half_even x =
     (let f = \<lfloor>x\<rfloor>; d = x - of_int f
      in if d < 1 / 2 then f else if 1 / 2 < d then f + 1 else if even f then f else f + 1)"

text \<open>The exponent \<open>e\<close> with \<open>2\<^sup>e \<le> x < 2\<^sup>e\<^sup>+\<^sup>1\<close> of a positive number, from the bit length
  of the integer part of \<open>x\<close> or of \<open>1 / x\<close>.\<close>

definition binade :: "real \<Rightarrow> int" where
  "binade x =
     (if 1 \<le> x then int (floorlog 2 (nat \<lfloor>x\<rfloor>)) - 1
      else (let j = int (floorlog 2 (nat \<lfloor>1 / x\<rfloor>))
            in if x * 2 ^ nat (j - 1) = 1 then 1 - j else - j))"

definition scale2 :: "real \<Rightarrow> int \<Rightarrow> real" where
  "scale2 x k = (if 0 \<le> k then x * 2 ^ nat k else x / 2 ^ nat (- k))"

text \<open>The \<^verbatim>\<open>float64\<close> nearest to a real number, ties to even: 53 significant bits, the
  exponent not below \<open>-1022\<close> (below it the spacing stays \<open>2\<^sup>-\<^sup>1\<^sup>0\<^sup>7\<^sup>4\<close>). Overflow to infinity
  is not represented: the numbers of the plots stay far below \<open>2\<^sup>1\<^sup>0\<^sup>2\<^sup>4\<close>.\<close>

definition fl64 :: "real \<Rightarrow> real" where
  "fl64 x =
     (if x = 0 then 0
      else (let e = max (binade \<bar>x\<bar>) (- 1022)
            in sgn x * scale2 (of_int (round_half_even (scale2 \<bar>x\<bar> (52 - e)))) (e - 52)))"

text \<open>Arithmetic that does not round, for comparison.\<close>

definition exact_arithmetic :: "'v libs \<Rightarrow> bool" where
  "exact_arithmetic L \<longleftrightarrow>
     to_float L = (\<lambda>x. x) \<and> fadd L = (+) \<and> fsub L = (-) \<and> fmul L = (*) \<and> fdiv L = (/) \<and>
     flt L = (<)"

section \<open>Example inputs\<close>

text \<open>A result directory with two archived files, and nothing elsewhere.\<close>

definition example_fs :: "int filesystem" where
  "example_fs =
     \<lparr>fs_glob = (\<lambda>p. if p = ''res/*/*.arff'' then [''res/a/1.arff'', ''res/b/2.arff''] else []),
      fs_load = (\<lambda>p.
        if p = ''res/a/1.arff'' then
          Inr \<lparr>attributes = [(''id'', ''NUMERIC''), (''parameter_clf__n_estimators'', ''NUMERIC'')],
               data = [[1, 10], [2, 20]]\<rparr>
        else if p = ''res/b/2.arff'' then
          Inr \<lparr>attributes = [(''parameter_x__n_estimators'', ''NUMERIC'')], data = [[30]]\<rparr>
        else Inl (OtherError ''no such file''))\<rparr>"

text \<open>Libraries that always succeed, with the IEEE binary64 arithmetic above (numpy
  converts the Python number of a comparison to \<^verbatim>\<open>float64\<close> first), and a numerical
  hyperparameter with bounds 1 and 100.\<close>

definition example_libs :: "int libs" where
  "example_libs =
     \<lparr>makedirs = (\<lambda>d. None),
      savefig = (\<lambda>p. None),
      float64 = (\<lambda>v. Inr (fl64 (real_of_int v))),
      np_power = (\<lambda>x p. if p = 1 then fl64 x else fl64 (x powr p)),
      kde_pdf = (\<lambda>h n s xs. Inr (map (\<lambda>x. 0) xs)),
      np_random = (\<lambda>n. replicate n 0),
      rvs = (\<lambda>xk pk n. Inr (replicate n 0)),
      xscale_log = None,
      to_float = fl64,
      fadd = (\<lambda>x y. fl64 (x + y)),
      fsub = (\<lambda>x y. fl64 (x - y)),
      fmul = (\<lambda>x y. fl64 (x * y)),
      fdiv = (\<lambda>x y. fl64 (x / y)),
      flt = (\<lambda>x y. x < fl64 y)\<rparr>"

text \<open>The same libraries with arithmetic that does not round.\<close>

definition exact_libs :: "int libs" where
  "exact_libs =
     example_libs\<lparr>np_power := (\<lambda>x p. if p = 1 then x else x powr p),
       to_float := (\<lambda>x. x), fadd := (+), fsub := (-), fmul := (*), fdiv := (/),
       flt := (<)\<rparr>"

definition example_hp :: numerical_hyperparameter where
  "example_hp = \<lparr>hp_name = ''n_estimators'', lower = 1, upper = 100, log_scale = False\<rparr>"


text \<open>A result directory whose only archived file has an attribute with three underscores
  in a row.\<close>

definition underscore_fs :: "int filesystem" where
  "underscore_fs =
     \<lparr>fs_glob = (\<lambda>p. if p = ''res/*/*.arff'' then [''res/a/1.arff''] else []),
      fs_load = (\<lambda>p.
        if p = ''res/a/1.arff'' then
          Inr \<lparr>attributes = [(''parameter_a___b'', ''NUMERIC'')], data = [[7]]\<rparr>
        else Inl (OtherError ''no such file''))\<rparr>"

text \<open>The data of the end-to-end scenario (a prior and one strategy), and a mapping with
  four strategies.\<close>

definition example_data :: "(string, int samples) pydict" where
  "example_data =
     [(''gaussian_kde'', RawList [15, 18, 22, 30]), (''random_search'', Float64Array [10, 20, 30])]"

definition example_four :: "(string, int samples) pydict" where
  "example_four =
     [(''gaussian_kde'', RawList [15, 18, 22, 30]), (''random_search'', Float64Array [10, 20, 30]),
      (''grid_search'', Float64Array [40]), (''bayes'', Float64Array [50])]"

text \<open>The legends of the two subplots of a saved figure, first the density subplot.\<close>

definition legends ::
  "py_error + string \<times> figure \<Rightarrow> (string option \<times> string option) option" where
  "legends r = (case r of Inl e \<Rightarrow> None | Inr (path, fig) \<Rightarrow> Some (legend (ax0 fig), legend (ax1 fig)))"

section \<open>Facts about the Python values\<close>


lemma split_from_nonempty: "split_from sep piece s \<noteq> []"
  by (induction sep piece s rule: split_from.induct) auto

lemma list_getitem_last: "xs \<noteq> [] \<Longrightarrow> list_getitem xs (- 1) = Inr (last xs)"
  by (cases xs rule: rev_cases) (auto simp: list_getitem_def Let_def nth_append)

lemma canonical_name_last:
  "canonical_name s = Inr (last (split_from ''__'' [] s))"
  by (simp add: canonical_name_def str_split_def list_getitem_last split_from_nonempty)


section \<open>Attribute names without a separator\<close>



section \<open>The parser collects every parameter column\<close>

lemma map_of_dict_setitem: "map_of (dict_setitem d k v) = (map_of d)(k \<mapsto> v)"
  by (induction d) (auto simp: fun_eq_iff)

lemma lookup_defaultdict_extend:
  "fst (defaultdict_getitem (defaultdict_extend d k xs) k') =
     (if k' = k then fst (defaultdict_getitem d k) @ xs else fst (defaultdict_getitem d k'))"
  by (auto simp: defaultdict_extend_def defaultdict_getitem_def map_of_dict_setitem
      split: option.splits)

lemma column_complete:
  "\<forall>row\<in>set rows. idx < length row \<Longrightarrow> column rows idx = Inr (map (\<lambda>row. row ! idx) rows)"
  by (induction rows) (auto simp: list_getitem_def)

lemma attributes_loop_complete:
  assumes "\<forall>(idx, attribute)\<in>set ias. \<forall>row\<in>set (data arff). idx < length row"
  shows "\<exists>values'. attributes_loop arff ias values = Inr values' \<and>
    (\<forall>k. fst (defaultdict_getitem values' k) =
       fst (defaultdict_getitem values k) @
       concat (map (\<lambda>(idx, attribute).
          if startswith (fst attribute) ''parameter_'' \<and> canonical_name (fst attribute) = Inr k
          then map (\<lambda>row. row ! idx) (data arff) else []) ias))"
  using assms
proof (induction ias arbitrary: "values")
  case Nil
  then show ?case by simp
next
  case (Cons ia ias)
  obtain idx attribute where ia: "ia = (idx, attribute)" by (cases ia)
  from Cons.prems ia have col: "column (data arff) idx = Inr (map (\<lambda>row. row ! idx) (data arff))"
    by (intro column_complete) auto
  from Cons.prems have rest: "\<forall>(idx, attribute)\<in>set ias. \<forall>row\<in>set (data arff). idx < length row"
    by simp
  show ?case
  proof (cases "startswith (fst attribute) ''parameter_''")
    case False
    with Cons.IH [OF rest, of "values"] ia show ?thesis by simp
  next
    case True
    let ?c = "last (split_from ''__'' [] (fst attribute))"
    let ?v = "defaultdict_extend values ?c (map (\<lambda>row. row ! idx) (data arff))"
    from Cons.IH [OF rest, of ?v] obtain values' where
      v: "attributes_loop arff ias ?v = Inr values'"
      and l: "\<forall>k. fst (defaultdict_getitem values' k) =
         fst (defaultdict_getitem ?v k) @
         concat (map (\<lambda>(idx, attribute).
            if startswith (fst attribute) ''parameter_'' \<and> canonical_name (fst attribute) = Inr k
            then map (\<lambda>row. row ! idx) (data arff) else []) ias)"
      by blast
    have "attributes_loop arff (ia # ias) values = Inr values'"
      using True v col ia by (simp add: canonical_name_last)
    moreover have "\<forall>k. fst (defaultdict_getitem values' k) =
       fst (defaultdict_getitem values k) @
       concat (map (\<lambda>(idx, attribute).
          if startswith (fst attribute) ''parameter_'' \<and> canonical_name (fst attribute) = Inr k
          then map (\<lambda>row. row ! idx) (data arff) else []) (ia # ias))"
      using l True ia by (auto simp: lookup_defaultdict_extend canonical_name_last)
    ultimately show ?thesis by blast
  qed
qed

lemma enumerate_index_bound:
  "(idx, x) \<in> set (enumerate 0 xs) \<Longrightarrow> idx < length xs"
  by (simp add: in_set_enumerate_eq)

lemma files_loop_complete:
  assumes "\<forall>file\<in>set files. \<exists>arff. fs_load fs file = Inr arff \<and>
             (\<forall>row\<in>set (data arff). length (attributes arff) \<le> length row)"
  shows "\<exists>values'. files_loop fs files values = Inr values' \<and>
    (\<forall>k. fst (defaultdict_getitem values' k) =
       fst (defaultdict_getitem values k) @ spec_sampled_values fs files k)"
  using assms
proof (induction files arbitrary: "values")
  case Nil
  then show ?case by (simp add: spec_sampled_values_def)
next
  case (Cons p files)
  from Cons.prems obtain arff where
    ld: "fs_load fs p = Inr arff"
    and wf: "\<forall>row\<in>set (data arff). length (attributes arff) \<le> length row"
    by auto
  have "\<forall>(idx, attribute)\<in>set (enumerate 0 (attributes arff)).
          \<forall>row\<in>set (data arff). idx < length row"
    using wf by (fastforce dest: enumerate_index_bound)
  from attributes_loop_complete [OF this, of "values"] obtain values1 where
    a: "attributes_loop arff (enumerate 0 (attributes arff)) values = Inr values1"
    and l1: "\<forall>k. fst (defaultdict_getitem values1 k) =
       fst (defaultdict_getitem values k) @ spec_file_values arff k"
    unfolding spec_file_values_def by blast
  from Cons.prems have "\<forall>file\<in>set files. \<exists>arff. fs_load fs file = Inr arff \<and>
             (\<forall>row\<in>set (data arff). length (attributes arff) \<le> length row)"
    by simp
  from Cons.IH [OF this, of values1] obtain values' where
    f: "files_loop fs files values1 = Inr values'"
    and l2: "\<forall>k. fst (defaultdict_getitem values' k) =
       fst (defaultdict_getitem values1 k) @ spec_sampled_values fs files k"
    by blast
  have "files_loop fs (p # files) values = Inr values'"
    using ld a f by simp
  moreover have "\<forall>k. fst (defaultdict_getitem values' k) =
       fst (defaultdict_getitem values k) @ spec_sampled_values fs (p # files) k"
    using l1 l2 ld by (simp add: spec_sampled_values_def)
  ultimately show ?case by blast
qed

lemma in_concat_map: "x \<in> set xs \<Longrightarrow> v \<in> set (f x) \<Longrightarrow> v \<in> set (concat (map f xs))"
  by auto

lemma spec_file_values_member:
  assumes "idx < length (attributes arff)"
    and "startswith (fst (attributes arff ! idx)) ''parameter_''"
    and "canonical_name (fst (attributes arff ! idx)) = Inr k"
    and "row \<in> set (data arff)"
  shows "row ! idx \<in> set (spec_file_values arff k)"
proof -
  have m: "(idx, attributes arff ! idx) \<in> set (enumerate 0 (attributes arff))"
    using assms(1) by (simp add: in_set_enumerate_eq)
  show ?thesis
    unfolding spec_file_values_def
    by (rule in_concat_map [OF m]) (use assms(2-4) in simp)
qed

lemma spec_sampled_values_member:
  assumes "p \<in> set files" and "fs_load fs p = Inr arff"
    and "v \<in> set (spec_file_values arff k)"
  shows "v \<in> set (spec_sampled_values fs files k)"
  unfolding spec_sampled_values_def
  by (rule in_concat_map [OF assms(1)]) (use assms(2,3) in simp)

lemma last_split_from:
  "\<not> str_contains s ''___'' \<Longrightarrow>
   last (split_from ''__'' piece s) =
     (case after_last ''__'' s of None \<Rightarrow> piece @ s | Some t \<Rightarrow> t)"
proof (induction s arbitrary: piece rule: length_induct)
  case (1 s)
  show ?case
  proof (cases s)
    case Nil
    then show ?thesis by simp
  next
    case (Cons c cs)
    show ?thesis
    proof (cases "startswith (c # cs) ''__''")
      case True
      then obtain r where cs: "c = CHR ''_''" "cs = CHR ''_'' # r"
        by (cases cs) (auto simp: startswith_def)
      from "1.prems" have nr: "\<not> startswith (CHR ''_'' # r) ''__''"
        and nc: "\<not> str_contains r ''___''"
        by (cases r; auto simp: Cons cs startswith_def)+
      from "1.IH" nc have ih: "last (split_from ''__'' [] r) =
          (case after_last ''__'' r of None \<Rightarrow> r | Some t \<Rightarrow> t)"
        by (simp add: Cons cs split: option.splits)
      have "last (split_from ''__'' piece s) = last (split_from ''__'' [] r)"
        by (simp add: Cons cs startswith_def split_from_nonempty)
      moreover have "after_last ''__'' s =
          (case after_last ''__'' r of None \<Rightarrow> Some r | Some t \<Rightarrow> Some t)"
        using nr by (simp add: Cons cs startswith_def split: option.splits)
      ultimately show ?thesis using ih by (simp split: option.splits)
    next
      case False
      from "1.prems" have nc: "\<not> str_contains cs ''___''"
        by (simp add: Cons)
      from "1.IH" nc have ih: "last (split_from ''__'' (piece @ [c]) cs) =
          (case after_last ''__'' cs of None \<Rightarrow> (piece @ [c]) @ cs | Some t \<Rightarrow> t)"
        by (simp add: Cons)
      from False ih show ?thesis
        by (simp add: Cons split: option.splits)
    qed
  qed
qed

lemma canonical_name_spec_key:
  "\<not> str_contains name ''___'' \<Longrightarrow> canonical_name name = Inr (spec_key name)"
  by (simp add: canonical_name_last last_split_from spec_key_def split: option.splits)

lemma underscore_name:
  "canonical_name ''parameter_a___b'' = Inr ''_b''" "spec_key ''parameter_a___b'' = ''b''"
  by (simp_all add: canonical_name_def str_split_def list_getitem_def startswith_def spec_key_def)

lemma underscore_parse: "obtain_sampled_parameters underscore_fs ''res'' = Inr [(''_b'', [7])]"
  by (simp add: obtain_sampled_parameters_def underscore_fs_def underscore_name startswith_def
      list_getitem_def defaultdict_extend_def defaultdict_getitem_def)
text \<open>
  Claim C1 fails on the code: the key is the last piece of \<^verbatim>\<open>split('__')\<close>, and the
  split takes its separators from the left. For the attribute \<^verbatim>\<open>parameter_a___b\<close> the
  pieces are \<^verbatim>\<open>parameter_a\<close> and \<^verbatim>\<open>_b\<close>, so the column is stored under \<^verbatim>\<open>_b\<close>, while
  the substring after the last \<^verbatim>\<open>__\<close> is \<^verbatim>\<open>b\<close>, a key under which the mapping holds
  nothing.
\<close>

theorem triple_underscore_key:
  "obtain_sampled_parameters underscore_fs ''res'' = Inr [(''_b'', [7])] \<and>
   canonical_name ''parameter_a___b'' = Inr ''_b'' \<and>
   spec_key ''parameter_a___b'' = ''b'' \<and>
   fst (defaultdict_getitem [(''_b'', [7 :: int])] ''b'') = []"
  by (simp add: underscore_parse underscore_name defaultdict_getitem_def)

text \<open>
  Claim C1 as amended. Whenever every file matched by the glob loads and each of its rows
  has a cell for every declared attribute, \<open>obtain_sampled_parameters\<close> returns a mapping in
  which the list under a key is the concatenation, file by file in glob order, attribute by
  attribute and row by row, of the columns of the attributes that start with
  \<^verbatim>\<open>parameter_\<close> and whose last \<^verbatim>\<open>__\<close>-piece is that key; so every row's value of such
  a column appears under the attribute's canonical name. When the glob matches no file the
  returned mapping is empty and nothing is raised. The canonical name is the last piece
  of the split at \<^verbatim>\<open>__\<close>; it is the substring after the last \<^verbatim>\<open>__\<close> of the name (the
  whole name when there is none) for every name without three underscores in a row.
\<close>

theorem obtain_sampled_parameters_collects:
  "((\<forall>file\<in>set (fs_glob fs (directory @ ''/*/*.arff'')).
       \<exists>arff. fs_load fs file = Inr arff \<and>
         (\<forall>row\<in>set (data arff). length (attributes arff) \<le> length row)) \<longrightarrow>
    (\<exists>values. obtain_sampled_parameters fs directory = Inr values \<and>
       (\<forall>k. fst (defaultdict_getitem values k) =
            spec_sampled_values fs (fs_glob fs (directory @ ''/*/*.arff'')) k) \<and>
       (\<forall>file arff idx row.
          file \<in> set (fs_glob fs (directory @ ''/*/*.arff'')) \<and> fs_load fs file = Inr arff \<and>
          idx < length (attributes arff) \<and>
          startswith (fst (attributes arff ! idx)) ''parameter_'' \<and> row \<in> set (data arff) \<longrightarrow>
          (\<exists>k. canonical_name (fst (attributes arff ! idx)) = Inr k \<and>
               row ! idx \<in> set (fst (defaultdict_getitem values k)))))) \<and>
   (fs_glob fs (directory @ ''/*/*.arff'') = [] \<longrightarrow>
      obtain_sampled_parameters fs directory = Inr []) \<and>
   (\<forall>name. \<not> str_contains name ''___'' \<longrightarrow> canonical_name name = Inr (spec_key name))"
proof (intro conjI impI)
  assume wf: "\<forall>file\<in>set (fs_glob fs (directory @ ''/*/*.arff'')).
       \<exists>arff. fs_load fs file = Inr arff \<and>
         (\<forall>row\<in>set (data arff). length (attributes arff) \<le> length row)"
  let ?files = "fs_glob fs (directory @ ''/*/*.arff'')"
  from files_loop_complete [OF wf, of "[]"] obtain vals where
    r: "files_loop fs ?files [] = Inr vals"
    and l: "\<forall>k. fst (defaultdict_getitem vals k) = spec_sampled_values fs ?files k"
    by (auto simp: defaultdict_getitem_def)
  have m: "\<exists>k. canonical_name (fst (attributes arff ! idx)) = Inr k \<and>
               row ! idx \<in> set (fst (defaultdict_getitem vals k))"
    if "p \<in> set ?files" "fs_load fs p = Inr arff" "idx < length (attributes arff)"
      "startswith (fst (attributes arff ! idx)) ''parameter_''" "row \<in> set (data arff)"
    for p arff idx row
  proof -
    obtain k where k: "canonical_name (fst (attributes arff ! idx)) = Inr k"
      by (simp add: canonical_name_last)
    have "row ! idx \<in> set (spec_sampled_values fs ?files k)"
      by (rule spec_sampled_values_member [OF that(1) that(2)
            spec_file_values_member [OF that(3) that(4) k that(5)]])
    with k l show ?thesis by simp
  qed
  show "\<exists>values. obtain_sampled_parameters fs directory = Inr values \<and>
       (\<forall>k. fst (defaultdict_getitem values k) = spec_sampled_values fs ?files k) \<and>
       (\<forall>file arff idx row.
          file \<in> set ?files \<and> fs_load fs file = Inr arff \<and>
          idx < length (attributes arff) \<and>
          startswith (fst (attributes arff ! idx)) ''parameter_'' \<and> row \<in> set (data arff) \<longrightarrow>
          (\<exists>k. canonical_name (fst (attributes arff ! idx)) = Inr k \<and>
               row ! idx \<in> set (fst (defaultdict_getitem values k))))"
  proof (rule exI [of _ vals], intro conjI allI impI)
    show "obtain_sampled_parameters fs directory = Inr vals"
      using r by (simp add: obtain_sampled_parameters_def)
  next
    fix k show "fst (defaultdict_getitem vals k) = spec_sampled_values fs ?files k"
      using l by simp
  next
    fix p arff idx row
    assume "p \<in> set ?files \<and> fs_load fs p = Inr arff \<and>
          idx < length (attributes arff) \<and>
          startswith (fst (attributes arff ! idx)) ''parameter_'' \<and> row \<in> set (data arff)"
    then show "\<exists>k. canonical_name (fst (attributes arff ! idx)) = Inr k \<and>
               row ! idx \<in> set (fst (defaultdict_getitem vals k))"
      using m by blast
  qed
next
  assume "fs_glob fs (directory @ ''/*/*.arff'') = []"
  then show "obtain_sampled_parameters fs directory = Inr []"
    by (simp add: obtain_sampled_parameters_def)
next
  show "\<forall>name. \<not> str_contains name ''___'' \<longrightarrow> canonical_name name = Inr (spec_key name)"
    by (intro allI impI) (rule canonical_name_spec_key)
qed

theorem obtain_sampled_parameters_collects_witness:
  "(\<exists>values. obtain_sampled_parameters example_fs ''res'' = Inr values \<and>
      fst (defaultdict_getitem values ''n_estimators'') = [10, 20, 30]) \<and>
   obtain_sampled_parameters example_fs ''res'' = Inr [(''n_estimators'', [10, 20, 30])] \<and>
   obtain_sampled_parameters example_fs ''elsewhere'' = Inr [] \<and>
   \<not> str_contains ''parameter_clf__n_estimators'' ''___'' \<and>
   canonical_name ''parameter_clf__n_estimators'' = Inr ''n_estimators'' \<and>
   spec_key ''parameter_clf__n_estimators'' = ''n_estimators''"
proof -
  have g: "fs_glob example_fs (''res'' @ ''/*/*.arff'') = [''res/a/1.arff'', ''res/b/2.arff'']"
    by (simp add: example_fs_def)
  have l1: "fs_load example_fs ''res/a/1.arff'' =
      Inr \<lparr>attributes = [(''id'', ''NUMERIC''), (''parameter_clf__n_estimators'', ''NUMERIC'')],
           data = [[1, 10], [2, 20]]\<rparr>"
    by (simp add: example_fs_def)
  have l2: "fs_load example_fs ''res/b/2.arff'' =
      Inr \<lparr>attributes = [(''parameter_x__n_estimators'', ''NUMERIC'')], data = [[30]]\<rparr>"
    by (simp add: example_fs_def)
  have wf: "\<forall>file\<in>set (fs_glob example_fs (''res'' @ ''/*/*.arff'')).
       \<exists>arff. fs_load example_fs file = Inr arff \<and>
         (\<forall>row\<in>set (data arff). length (attributes arff) \<le> length row)"
    unfolding g using l1 l2 by simp
  have c1: "canonical_name ''parameter_clf__n_estimators'' = Inr ''n_estimators''"
    by (simp add: canonical_name_def str_split_def list_getitem_def startswith_def)
  have c2: "canonical_name ''parameter_x__n_estimators'' = Inr ''n_estimators''"
    by (simp add: canonical_name_def str_split_def list_getitem_def startswith_def)
  have s: "spec_sampled_values example_fs (fs_glob example_fs (''res'' @ ''/*/*.arff''))
             ''n_estimators'' = [10, 20, 30]"
    unfolding g by (simp add: spec_sampled_values_def spec_file_values_def l1 l2 c1 c2
        startswith_def)
  from obtain_sampled_parameters_collects [of example_fs "''res''"] wf
  obtain vals where r: "obtain_sampled_parameters example_fs ''res'' = Inr vals"
    and l: "\<forall>k. fst (defaultdict_getitem vals k) =
       spec_sampled_values example_fs (fs_glob example_fs (''res'' @ ''/*/*.arff'')) k"
    by blast
  from l s have a: "fst (defaultdict_getitem vals ''n_estimators'') = [10, 20, 30]"
    by simp
  have b: "obtain_sampled_parameters example_fs ''res'' = Inr [(''n_estimators'', [10, 20, 30])]"
    unfolding obtain_sampled_parameters_def g
    by (simp add: l1 l2 c1 c2 startswith_def list_getitem_def defaultdict_extend_def
        defaultdict_getitem_def)
  have e: "fs_glob example_fs (''elsewhere'' @ ''/*/*.arff'') = []"
    by (simp add: example_fs_def)
  from obtain_sampled_parameters_collects [of example_fs "''elsewhere''"] e
  have c: "obtain_sampled_parameters example_fs ''elsewhere'' = Inr []"
    by blast
  have n: "\<not> str_contains ''parameter_clf__n_estimators'' ''___''"
    by (simp add: startswith_def)
  have sk: "spec_key ''parameter_clf__n_estimators'' = ''n_estimators''"
    by (simp add: spec_key_def startswith_def)
  from obtain_sampled_parameters_collects [of example_fs "''res''"]
  have "\<forall>name. \<not> str_contains name ''___'' \<longrightarrow> canonical_name name = Inr (spec_key name)"
    by (rule conjunct2 [THEN conjunct2])
  with n have "canonical_name ''parameter_clf__n_estimators'' =
      Inr (spec_key ''parameter_clf__n_estimators'')"
    by blast
  with sk have cn: "canonical_name ''parameter_clf__n_estimators'' = Inr ''n_estimators''"
    by simp
  from r a have ex: "\<exists>values. obtain_sampled_parameters example_fs ''res'' = Inr values \<and>
      fst (defaultdict_getitem values ''n_estimators'') = [10, 20, 30]"
    by blast
  from ex b c n cn sk show ?thesis by (intro conjI)
qed

section \<open>The per-parameter loop\<close>

lemma all_equal_first_same:
  "priors \<noteq> [] \<Longrightarrow> \<forall>x\<in>set xs. x = priors ! 0 \<Longrightarrow> all_equal_first priors xs = Inr True"
  by (induction xs) (auto simp: list_getitem_def)

lemma degenerate_same:
  "priors \<noteq> [] \<Longrightarrow> \<forall>x\<in>set priors. x = priors ! 0 \<Longrightarrow> degenerate priors = Inr True"
  by (simp add: degenerate_def all_equal_first_same)

lemma parameters_loop_skip:
  "degenerate priors = Inr True \<Longrightarrow>
   parameters_loop L H out ((param_name, priors) # rest) R = parameters_loop L H out rest R"
  by simp

lemma parameters_loop_calls:
  "cr \<in> set (fst (parameters_loop L H out items R)) \<Longrightarrow>
   \<exists>priors. (call_parameter (fst cr), priors) \<in> set items \<and> degenerate priors = Inr False"
proof (induction items arbitrary: R)
  case Nil
  then show ?case by simp
next
  case (Cons item items)
  obtain param_name priors where item: "item = (param_name, priors)" by (cases item)
  show ?case
  proof (cases "degenerate priors")
    case (Inl e)
    with Cons.prems item show ?thesis by simp
  next
    case (Inr b)
    show ?thesis
    proof (cases b)
      case True
      with Inr have "degenerate priors = Inr True" by simp
      with Cons.prems item have "cr \<in> set (fst (parameters_loop L H out items R))"
        by simp
      from Cons.IH [OF this] show ?thesis by auto
    next
      case False
      with Inr have deg: "degenerate priors = Inr False" by simp
      show ?thesis
      proof (cases "dict_getitem H param_name")
        case (Inl e)
        with deg Cons.prems item show ?thesis by simp
      next
        case hp: (Inr hp)
        show ?thesis
        proof (cases hp)
          case (NumericalHyperparameter h)
          show ?thesis
          proof (cases "assemble_data L param_name priors R")
            case (Inl e)
            with deg hp NumericalHyperparameter Cons.prems item show ?thesis by simp
          next
            case (Inr dr)
            obtain d R1 where dr: "dr = (d, R1)" by (cases dr)
            show ?thesis
            proof (cases "plot_numeric L h d (out @ ''/'') param_name")
              case (Inl e)
              with deg hp NumericalHyperparameter Inr dr Cons.prems item
              have "call_parameter (fst cr) = param_name" by auto
              with deg item show ?thesis by auto
            next
              case pn: (Inr pf)
              obtain path fig where pf: "pf = (path, fig)" by (cases pf)
              from deg hp NumericalHyperparameter Inr dr pn pf Cons.prems item
              have "call_parameter (fst cr) = param_name \<or>
                    cr \<in> set (fst (parameters_loop L H out items R1))"
                by (auto split: prod.splits)
              then show ?thesis
              proof
                assume "call_parameter (fst cr) = param_name"
                with deg item show ?thesis by auto
              next
                assume "cr \<in> set (fst (parameters_loop L H out items R1))"
                from Cons.IH [OF this] show ?thesis by auto
              qed
            qed
          qed
        next
          case CategoricalHyperparameter
          show ?thesis
          proof (cases "plot_categorical L priors (out @ ''/'') param_name")
            case (Inl e)
            with deg hp CategoricalHyperparameter Cons.prems item
            have "call_parameter (fst cr) = param_name" by auto
            with deg item show ?thesis by auto
          next
            case pc: (Inr pf)
            obtain path hst where pf: "pf = (path, hst)" by (cases pf)
            from deg hp CategoricalHyperparameter pc pf Cons.prems item
            have "call_parameter (fst cr) = param_name \<or>
                  cr \<in> set (fst (parameters_loop L H out items R))"
              by (auto split: prod.splits)
            then show ?thesis
            proof
              assume "call_parameter (fst cr) = param_name"
              with deg item show ?thesis by auto
            next
              assume "cr \<in> set (fst (parameters_loop L H out items R))"
              from Cons.IH [OF this] show ?thesis by auto
            qed
          qed
        next
          case Constant
          with deg hp Cons.prems item
          have "cr \<in> set (fst (parameters_loop L H out items R))" by simp
          from Cons.IH [OF this] show ?thesis by auto
        qed
      qed
    qed
  qed
qed

lemma distinct_keys_same_value:
  "distinct (map fst items) \<Longrightarrow> (k, v) \<in> set items \<Longrightarrow> (k, v') \<in> set items \<Longrightarrow> v = v'"
  by (induction items) (auto simp: rev_image_eqI)

text \<open>
  Claim C2. A hyperparameter whose prior list is non-empty with all elements equal is
  skipped by the per-parameter loop: the degeneracy test is true without raising, the loop
  goes on to the remaining parameters with no plotter call and no exception, and (the keys
  of the priors being distinct) no plotter call of the whole loop, hence no written file,
  is for that parameter.
\<close>

theorem degenerate_parameter_is_skipped:
  assumes "priors \<noteq> []" and "\<forall>x\<in>set priors. x = priors ! 0"
  shows "degenerate priors = Inr True \<and>
     parameters_loop L H out ((param_name, priors) # rest) R = parameters_loop L H out rest R \<and>
     parameters_loop L H out [(param_name, priors)] R = ([], None) \<and>
     (distinct (map fst items) \<and> (param_name, priors) \<in> set items \<longrightarrow>
        (\<forall>cr\<in>set (fst (parameters_loop L H out items R)).
           call_parameter (fst cr) \<noteq> param_name))"
proof -
  have d: "degenerate priors = Inr True"
    using assms by (rule degenerate_same)
  have "call_parameter (fst cr) \<noteq> param_name"
    if "distinct (map fst items)" "(param_name, priors) \<in> set items"
      "cr \<in> set (fst (parameters_loop L H out items R))" for cr
  proof
    assume eq: "call_parameter (fst cr) = param_name"
    from parameters_loop_calls [OF that(3)] eq obtain priors' where
      "(param_name, priors') \<in> set items" "degenerate priors' = Inr False"
      by auto
    with distinct_keys_same_value [OF that(1) that(2)] d show False by auto
  qed
  with d show ?thesis by (auto simp: parameters_loop_skip)
qed

theorem degenerate_parameter_is_skipped_witness:
  "degenerate [3, 3, 3 :: int] = Inr True \<and>
   parameters_loop example_libs [(''n_estimators'', NumericalHyperparameter example_hp)] ''out''
     [(''n_estimators'', [3, 3, 3])] [] = ([], None)"
proof -
  have h1: "[3, 3, 3 :: int] \<noteq> []" by simp
  have h2: "\<forall>x\<in>set [3, 3, 3 :: int]. x = [3, 3, 3] ! 0" by simp
  from degenerate_parameter_is_skipped [OF h1 h2] show ?thesis by blast
qed

text \<open>
  Claim C8. For an empty prior list the all-equal test yields true without reading
  \<^verbatim>\<open>priors[0]\<close> (which would raise \<^verbatim>\<open>IndexError\<close>): the generator yields nothing. The
  loop goes on with no plotter call and no exception.
\<close>

theorem empty_priors_are_skipped:
  "list_getitem ([] :: 'v list) 0 = Inl IndexError \<and>
   degenerate ([] :: 'v list) = Inr True \<and>
   parameters_loop L H out ((param_name, [] :: 'v list) # rest) R =
     parameters_loop L H out rest R \<and>
   parameters_loop L H out [(param_name, [] :: 'v list)] R = ([], None)"
  by (simp add: degenerate_def list_getitem_def)

text \<open>
  Claim C5 fails on the code. The call of the prior-estimation utility passes the
  constant 10 as best-N count whatever the command line gave, while the folder names are
  derived from the command line's count: with \<^verbatim>\<open>--bestN 20\<close> the request still asks for
  10 configurations.
\<close>

theorem obtain_priors_ignores_bestN:
  "req_bestN (obtain_priors_request to_suffix (a\<lparr>bestN := 20\<rparr>)) = 10 \<and>
   map_of (important_parameters (a\<lparr>bestN := 20\<rparr>)) ''bestN'' = Some (JInt 20)"
  by (simp add: obtain_priors_request_def important_parameters_def map_of_dict_setitem)

section \<open>Strategies without samples for a parameter\<close>

lemma defaultdict_getitem_again:
  "fst (defaultdict_getitem (snd (defaultdict_getitem c p)) p) = fst (defaultdict_getitem c p)"
  by (auto simp: defaultdict_getitem_def map_of_dict_setitem split: option.splits)

lemma strategy_loop_empty_samples:
  assumes "strategy_loop L p ss R D = Inr (D', R')"
    and "\<exists>c. map_of R strategy = Some c \<and> fst (defaultdict_getitem c p) = []"
    and "strategy \<in> set ss \<or> map_of D strategy = Some (Float64Array [])"
  shows "map_of D' strategy = Some (Float64Array [])"
  using assms
proof (induction ss arbitrary: R D)
  case Nil
  then show ?case by simp
next
  case (Cons s ss)
  from Cons.prems(1) obtain c where c: "dict_getitem R s = Inr c"
    by (auto split: sum.splits)
  obtain vs c1 where g: "defaultdict_getitem c p = (vs, c1)"
    by (cases "defaultdict_getitem c p")
  from Cons.prems(1) c g obtain arr where arr: "float64_list L vs = Inr arr"
    by (auto split: sum.splits)
  let ?R = "dict_setitem R s c1"
  let ?D = "dict_setitem D s (Float64Array arr)"
  from Cons.prems(1) c g arr have run: "strategy_loop L p ss ?R ?D = Inr (D', R')"
    by simp
  from Cons.prems(2) obtain c0 where
    c0: "map_of R strategy = Some c0" "fst (defaultdict_getitem c0 p) = []"
    by blast
  have inv: "\<exists>c. map_of ?R strategy = Some c \<and> fst (defaultdict_getitem c p) = []"
  proof (cases "s = strategy")
    case True
    with c c0 have "c = c0" by (simp add: dict_getitem_def)
    with c0 g have "fst (defaultdict_getitem c1 p) = []"
      using defaultdict_getitem_again [of c p] by simp
    with True show ?thesis by (simp add: map_of_dict_setitem)
  next
    case False
    with c0 show ?thesis by (simp add: map_of_dict_setitem)
  qed
  have d: "strategy \<in> set ss \<or> map_of ?D strategy = Some (Float64Array [])"
  proof (cases "s = strategy")
    case True
    with c c0 have "c = c0" by (simp add: dict_getitem_def)
    with c0 g have "vs = []" by simp
    with arr have "arr = []" by simp
    with True show ?thesis by (simp add: map_of_dict_setitem)
  next
    case False
    with Cons.prems(3) show ?thesis by (auto simp: map_of_dict_setitem)
  qed
  from Cons.IH [OF run inv d] show ?case .
qed

lemma map_of_in_keys: "map_of d k = Some v \<Longrightarrow> k \<in> set (map fst d)"
  by (induction d) (auto split: if_splits)

text \<open>
  Claim C9. When a strategy's parsed collection has no entry for a parameter name, reading
  that name from the collection gives the empty list and raises nothing (the collection is
  a default dictionary), and the data assembled for the numeric plotter maps the strategy
  to an empty sample array: that is what the orchestrator passes to the plotter.
\<close>

theorem missing_parameter_reads_empty_list:
  assumes "dict_getitem obtained_results strategy = Inr collection"
    and "map_of collection param_name = None"
  shows "fst (defaultdict_getitem collection param_name) = [] \<and>
    (\<forall>strategy_data R'.
       assemble_data L param_name priors obtained_results = Inr (strategy_data, R') \<longrightarrow>
       map_of strategy_data strategy = Some (Float64Array []) \<and>
       (degenerate priors = Inr False \<and>
        dict_getitem H param_name = Inr (NumericalHyperparameter h) \<longrightarrow>
        (\<exists>r. hd (fst (parameters_loop L H out ((param_name, priors) # rest) obtained_results)) =
           (CallNumeric h strategy_data (out @ ''/'') param_name, r))))"
proof -
  have e: "fst (defaultdict_getitem collection param_name) = []"
    using assms(2) by (simp add: defaultdict_getitem_def)
  from assms(1) have m: "map_of obtained_results strategy = Some collection"
    by (auto simp: dict_getitem_def split: option.splits)
  have "map_of strategy_data strategy = Some (Float64Array [])"
    if "assemble_data L param_name priors obtained_results = Inr (strategy_data, R')"
    for strategy_data R'
    using that unfolding assemble_data_def
    by (rule strategy_loop_empty_samples) (use m e map_of_in_keys [OF m] in auto)
  then show ?thesis
    using e by (auto split: sum.splits prod.splits)
qed

theorem missing_parameter_reads_empty_list_witness:
  "fst (defaultdict_getitem [(''learning_rate'', [1, 2 :: int])] ''n_estimators'') = [] \<and>
   assemble_data example_libs ''n_estimators'' [15, 18, 22, 30]
       [(''random_search'', [(''learning_rate'', [1, 2])])] =
     Inr ([(''gaussian_kde'', RawList [15, 18, 22, 30]), (''random_search'', Float64Array [])],
          [(''random_search'', [(''learning_rate'', [1, 2]), (''n_estimators'', [])])]) \<and>
   map_of [(''gaussian_kde'', RawList [15, 18, 22, 30 :: int]),
           (''random_search'', Float64Array [])] ''random_search'' = Some (Float64Array [])"
proof -
  let ?R = "[(''random_search'', [(''learning_rate'', [1, 2 :: int])])]"
  have h1: "dict_getitem ?R ''random_search'' = Inr [(''learning_rate'', [1, 2])]"
    by (simp add: dict_getitem_def)
  have h2: "map_of [(''learning_rate'', [1, 2 :: int])] ''n_estimators'' = None"
    by simp
  note t = missing_parameter_reads_empty_list [OF h1 h2, of example_libs "[15, 18, 22, 30]"]
  have a: "assemble_data example_libs ''n_estimators'' [15, 18, 22, 30] ?R =
     Inr ([(''gaussian_kde'', RawList [15, 18, 22, 30]), (''random_search'', Float64Array [])],
          [(''random_search'', [(''learning_rate'', [1, 2]), (''n_estimators'', [])])])"
    by (simp add: assemble_data_def dict_getitem_def defaultdict_getitem_def example_libs_def)
  from t a have "map_of [(''gaussian_kde'', RawList [15, 18, 22, 30 :: int]),
           (''random_search'', Float64Array [])] ''random_search'' = Some (Float64Array [])"
    by blast
  with t a show ?thesis by blast
qed

section \<open>The frequency map of the categorical plotter\<close>

lemma keys_dict_setitem_present:
  "k \<in> fst ` set d \<Longrightarrow> map fst (dict_setitem d k v) = map fst d"
  by (induction d) force+

lemma keys_dict_setitem_absent:
  "k \<notin> fst ` set d \<Longrightarrow> map fst (dict_setitem d k v) = map fst d @ [k]"
  by (induction d) auto

lemma keys_dict_setitem:
  "map fst (dict_setitem d k v) = (if k \<in> set (map fst d) then map fst d else map fst d @ [k])"
  by (simp add: keys_dict_setitem_present keys_dict_setitem_absent)

lemma key_in_dict_setitem: "k \<in> fst ` set (dict_setitem d k v)"
  by (induction d) force+

lemma set_first_seen: "set (first_seen xs) = set xs"
  by (induction xs) auto

lemma distinct_first_seen: "distinct (first_seen xs)"
  by (induction xs) (auto simp: distinct_removeAll)

lemma filter_removeAll: "filter P (removeAll v xs) = filter (\<lambda>k. P k \<and> k \<noteq> v) xs"
  by (induction xs) auto

lemma dict_getitem_after_insert:
  "dict_getitem (if \<not> dict_contains d k then dict_setitem d k 0 else d) k =
     Inr (case map_of d k of None \<Rightarrow> 0 | Some v \<Rightarrow> v)"
  by (auto simp: dict_getitem_def dict_contains_def map_of_dict_setitem split: option.splits)

lemma X_prime_loop_step:
  "n \<noteq> 0 \<Longrightarrow> X_prime_loop L (v # rest) n acc =
     X_prime_loop L rest n
       (dict_setitem (if \<not> dict_contains acc v then dict_setitem acc v 0 else acc) v
          (fadd L (case map_of acc v of None \<Rightarrow> 0 | Some c \<Rightarrow> c)
             (fdiv L 1 (to_float L (real n)))))"
  by (simp add: Let_def dict_getitem_after_insert truediv_def del: dict_setitem.simps)

lemma keys_after_step:
  "map fst (dict_setitem (if \<not> dict_contains acc v then dict_setitem acc v 0 else acc) v c) =
     (if v \<in> set (map fst acc) then map fst acc else map fst acc @ [v])"
proof -
  have "dict_contains acc v \<longleftrightarrow> v \<in> set (map fst acc)"
    by (auto simp: dict_contains_def map_of_eq_None_iff)
  then show ?thesis
    using key_in_dict_setitem [of v acc 0] by (simp add: keys_dict_setitem)
qed

lemma X_prime_loop_total:
  "n \<noteq> 0 \<Longrightarrow> \<exists>m. X_prime_loop L xs n acc = Inr m"
proof (induction xs arbitrary: acc)
  case Nil
  then show ?case by simp
next
  case (Cons v rest)
  show ?case
    unfolding X_prime_loop_step [OF Cons.prems] by (rule Cons.IH [OF Cons.prems])
qed

lemma X_prime_loop_keys:
  "n \<noteq> 0 \<Longrightarrow> X_prime_loop L xs n acc = Inr m \<Longrightarrow>
   map fst m = map fst acc @ filter (\<lambda>k. k \<notin> set (map fst acc)) (first_seen xs)"
proof (induction xs arbitrary: acc)
  case Nil
  then show ?case by simp
next
  case (Cons v rest)
  let ?acc = "dict_setitem (if \<not> dict_contains acc v then dict_setitem acc v 0 else acc) v
          (fadd L (case map_of acc v of None \<Rightarrow> 0 | Some c \<Rightarrow> c)
             (fdiv L 1 (to_float L (real n))))"
  have "X_prime_loop L rest n ?acc = Inr m"
    using Cons.prems(2) unfolding X_prime_loop_step [OF Cons.prems(1)] .
  from Cons.IH [OF Cons.prems(1) this]
  have "map fst m = map fst ?acc @ filter (\<lambda>k. k \<notin> set (map fst ?acc)) (first_seen rest)" .
  then show ?case
    by (simp only: keys_after_step) (auto simp: filter_removeAll intro: filter_cong)
qed

text \<open>The value under a key is the increment added to zero once for each occurrence of the
  key, each sum rounded.\<close>

lemma X_prime_loop_values:
  "n \<noteq> 0 \<Longrightarrow> X_prime_loop L xs n acc = Inr m \<Longrightarrow>
   (case map_of m k of None \<Rightarrow> 0 | Some c \<Rightarrow> c) =
     ((\<lambda>s. fadd L s (fdiv L 1 (to_float L (real n)))) ^^ count_list xs k)
       (case map_of acc k of None \<Rightarrow> 0 | Some c \<Rightarrow> c)"
proof (induction xs arbitrary: acc)
  case Nil
  then show ?case by simp
next
  case (Cons v rest)
  let ?f = "\<lambda>s. fadd L s (fdiv L 1 (to_float L (real n)))"
  let ?acc = "dict_setitem (if \<not> dict_contains acc v then dict_setitem acc v 0 else acc) v
          (?f (case map_of acc v of None \<Rightarrow> 0 | Some c \<Rightarrow> c))"
  have "X_prime_loop L rest n ?acc = Inr m"
    using Cons.prems(2) unfolding X_prime_loop_step [OF Cons.prems(1)] .
  from Cons.IH [OF Cons.prems(1) this]
  have "(case map_of m k of None \<Rightarrow> 0 | Some c \<Rightarrow> c) =
     (?f ^^ count_list rest k) (case map_of ?acc k of None \<Rightarrow> 0 | Some c \<Rightarrow> c)" .
  moreover have "(case map_of ?acc k of None \<Rightarrow> 0 | Some c \<Rightarrow> c) =
     (if k = v then ?f (case map_of acc k of None \<Rightarrow> 0 | Some c \<Rightarrow> c)
      else (case map_of acc k of None \<Rightarrow> 0 | Some c \<Rightarrow> c))"
    by (auto simp: map_of_dict_setitem split: option.splits)
  moreover have "(?f ^^ c) (?f a) = ?f ((?f ^^ c) a)" for c a
    by (rule funpow_swap1 [symmetric])
  ultimately show ?case
    by simp
qed

lemma exact_accumulation:
  "exact_arithmetic L \<Longrightarrow>
   ((\<lambda>s. fadd L s (fdiv L 1 (to_float L (real n)))) ^^ c) a = a + real c / real n"
  by (induction c) (simp_all add: exact_arithmetic_def add_divide_distrib)

lemma sum_list_frequencies:
  "xs \<noteq> [] \<Longrightarrow>
   sum_list (map (\<lambda>k. real (count_list xs k) / real (length xs)) (first_seen xs)) = 1"
proof -
  assume ne: "xs \<noteq> []"
  have "sum_list (map (\<lambda>k. real (count_list xs k) / real (length xs)) (first_seen xs)) =
        (\<Sum>k\<in>set xs. real (count_list xs k) / real (length xs))"
    using sum_list_distinct_conv_sum_set [OF distinct_first_seen, of _ xs]
    by (simp add: set_first_seen)
  also have "\<dots> = real (\<Sum>k\<in>set xs. count_list xs k) / real (length xs)"
    by (simp add: sum_divide_distrib)
  also have "(\<Sum>k\<in>set xs. count_list xs k) = length xs"
    by (rule sum_count_set) simp_all
  finally show ?thesis using ne by simp
qed

text \<open>Binary64 sums of tenths and of thirds.\<close>

lemma ieee_tenths:
  "to_float example_libs 10 = 10"
  "fdiv example_libs 1 10 = 3602879701896397 / 36028797018963968"
  "fadd example_libs 0 (3602879701896397 / 36028797018963968) = 3602879701896397 / 36028797018963968"
  "fadd example_libs (3602879701896397 / 36028797018963968) (3602879701896397 / 36028797018963968) = 3602879701896397 / 18014398509481984"
  "fadd example_libs (3602879701896397 / 18014398509481984) (3602879701896397 / 36028797018963968) = 1351079888211149 / 4503599627370496"
  "fadd example_libs (1351079888211149 / 4503599627370496) (3602879701896397 / 36028797018963968) = 3602879701896397 / 9007199254740992"
  "fadd example_libs (3602879701896397 / 9007199254740992) (3602879701896397 / 36028797018963968) = 1 / 2"
  "fadd example_libs (1 / 2) (3602879701896397 / 36028797018963968) = 5404319552844595 / 9007199254740992"
  "fadd example_libs (5404319552844595 / 9007199254740992) (3602879701896397 / 36028797018963968) = 3152519739159347 / 4503599627370496"
  "fadd example_libs (3152519739159347 / 4503599627370496) (3602879701896397 / 36028797018963968) = 7205759403792793 / 9007199254740992"
  "fadd example_libs (7205759403792793 / 9007199254740992) (3602879701896397 / 36028797018963968) = 2026619832316723 / 2251799813685248"
  by (simp_all add: example_libs_def fl64_def binade_def compute_floorlog scale2_def
      round_half_even_def Let_def)

lemma ieee_thirds:
  "to_float example_libs 3 = 3"
  "fdiv example_libs 1 3 = 6004799503160661 / 18014398509481984"
  "fadd example_libs 0 (6004799503160661 / 18014398509481984) =
     6004799503160661 / 18014398509481984"
  "fadd example_libs (6004799503160661 / 18014398509481984)
     (6004799503160661 / 18014398509481984) = 6004799503160661 / 9007199254740992"
  "fl64 (2 / 3) = 6004799503160661 / 9007199254740992"
  "fl64 (1 / 3) = 6004799503160661 / 18014398509481984"
  by (simp_all add: example_libs_def fl64_def binade_def compute_floorlog scale2_def
      round_half_even_def Let_def)

lemma exact_libs_arithmetic: "exact_arithmetic exact_libs"
  by (simp add: exact_arithmetic_def exact_libs_def)

text \<open>
  Claim C6 fails on the code: the increment \<^verbatim>\<open>1.0 / len(X)\<close> and every sum are rounded to
  \<^verbatim>\<open>float64\<close>. On nine times \<open>a\<close> followed by \<open>b\<close> the value under \<open>a\<close> is
  \<^verbatim>\<open>0.8999999999999999\<close>, which is neither \<open>9/10\<close> nor the float nearest to it, and the
  values do not sum to 1, exactly or in \<^verbatim>\<open>float64\<close>.
\<close>

theorem nine_tenths_is_missed:
  "frequency_map example_libs
     [''a'', ''a'', ''a'', ''a'', ''a'', ''a'', ''a'', ''a'', ''a'', ''b''] =
     Inr [(''a'', 2026619832316723 / 2251799813685248),
          (''b'', 3602879701896397 / 36028797018963968)] \<and>
   (2026619832316723 / 2251799813685248 :: real) \<noteq> 9 / 10 \<and>
   (2026619832316723 / 2251799813685248 :: real) \<noteq> fl64 (9 / 10) \<and>
   sum_list (map snd [(''a'', 2026619832316723 / 2251799813685248 :: real),
                      (''b'', 3602879701896397 / 36028797018963968)]) \<noteq> 1 \<and>
   fadd example_libs (2026619832316723 / 2251799813685248)
     (3602879701896397 / 36028797018963968) \<noteq> 1"
proof -
  have "frequency_map example_libs
     [''a'', ''a'', ''a'', ''a'', ''a'', ''a'', ''a'', ''a'', ''a'', ''b''] =
     Inr [(''a'', 2026619832316723 / 2251799813685248),
          (''b'', 3602879701896397 / 36028797018963968)]"
    by (simp add: frequency_map_def dict_contains_def dict_getitem_def truediv_def ieee_tenths)
  moreover have "fl64 (9 / 10) = 8106479329266893 / 9007199254740992"
    by (simp add: fl64_def binade_def compute_floorlog scale2_def round_half_even_def Let_def)
  moreover have "fadd example_libs (2026619832316723 / 2251799813685248)
     (3602879701896397 / 36028797018963968) = 9007199254740991 / 9007199254740992"
    by (simp add: example_libs_def fl64_def binade_def compute_floorlog scale2_def
        round_half_even_def Let_def)
  ultimately show ?thesis by simp
qed

text \<open>
  Claim C6 as amended. For a non-empty input the categorical plotter's frequency map is
  computed without an exception, and it is the map whose values the plotter hands to the
  discrete distribution it draws from; its keys are the distinct values of the input in
  first-seen order; and the value under a key is the result of adding the rounded quotient
  \<^verbatim>\<open>1.0 / len(X)\<close> to zero once for each occurrence of the key, every sum rounded to
  \<^verbatim>\<open>float64\<close>. That value is the number of occurrences divided by the length, and the
  values sum to 1, only up to this rounding: both hold exactly in arithmetic that does not
  round. On \<open>[a, a, b]\<close> with \<open>a \<noteq> b\<close> the map is \<open>{a: 2/3, b: 1/3}\<close> as floats, the
  \<^verbatim>\<open>float64\<close> nearest to \<open>2/3\<close> and to \<open>1/3\<close>.
\<close>

theorem frequency_map_is_empirical_distribution:
  assumes "X \<noteq> []"
  shows "(\<exists>X_prime. frequency_map L X = Inr X_prime \<and>
            map fst X_prime = first_seen X \<and>
            distinct (map fst X_prime) \<and>
            (\<forall>(k, v)\<in>set X_prime.
               v = ((\<lambda>s. fadd L s (fdiv L 1 (to_float L (real (length X))))) ^^ count_list X k) 0) \<and>
            (exact_arithmetic L \<longrightarrow>
               (\<forall>(k, v)\<in>set X_prime. v = real (count_list X k) / real (length X)) \<and>
               sum_list (map snd X_prime) = 1)) \<and>
         (\<forall>path h. plot_categorical L X out pn = Inr (path, h) \<longrightarrow>
            (\<exists>X_prime. frequency_map L X = Inr X_prime \<and>
               rvs L [0..<length X_prime] (map snd X_prime) 100 = Inr (hist_values h) \<and>
               hist_range h = (0, length X_prime))) \<and>
         (a \<noteq> b \<longrightarrow>
            frequency_map example_libs [a, a, b] = Inr [(a, fl64 (2 / 3)), (b, fl64 (1 / 3))])"
proof (intro conjI)
  from assms have n: "length X \<noteq> 0" by simp
  let ?f = "\<lambda>s. fadd L s (fdiv L 1 (to_float L (real (length X))))"
  from X_prime_loop_total [OF n, of L X "[]"] obtain m where
    m: "X_prime_loop L X (length X) [] = Inr m" by blast
  from X_prime_loop_keys [OF n m] have keys: "map fst m = first_seen X"
    by simp
  then have dist: "distinct (map fst m)"
    by (simp add: distinct_first_seen)
  have val: "v = (?f ^^ count_list X k) 0" if "(k, v) \<in> set m" for k v
  proof -
    from that dist have "map_of m k = Some v" by simp
    with X_prime_loop_values [OF n m, of k] show ?thesis by simp
  qed
  have ex: "(\<forall>(k, v)\<in>set m. v = real (count_list X k) / real (length X)) \<and>
       sum_list (map snd m) = 1" if e: "exact_arithmetic L"
  proof -
    have v: "v = real (count_list X k) / real (length X)" if "(k, v) \<in> set m" for k v
      using val [OF that]
        exact_accumulation [OF e, where n = "length X" and c = "count_list X k" and a = 0]
      by simp
    then have "map snd m = map (\<lambda>k. real (count_list X k) / real (length X)) (map fst m)"
      by (auto simp: map_eq_conv)
    with keys have "sum_list (map snd m) = 1"
      using sum_list_frequencies [OF assms] by simp
    with v show ?thesis by auto
  qed
  show "\<exists>X_prime. frequency_map L X = Inr X_prime \<and>
            map fst X_prime = first_seen X \<and>
            distinct (map fst X_prime) \<and>
            (\<forall>(k, v)\<in>set X_prime. v = (?f ^^ count_list X k) 0) \<and>
            (exact_arithmetic L \<longrightarrow>
               (\<forall>(k, v)\<in>set X_prime. v = real (count_list X k) / real (length X)) \<and>
               sum_list (map snd X_prime) = 1)"
  proof (rule exI [of _ m], intro conjI)
    show "frequency_map L X = Inr m" using m by (simp add: frequency_map_def)
    show "map fst m = first_seen X" by (rule keys)
    show "distinct (map fst m)" by (rule dist)
    show "\<forall>(k, v)\<in>set m. v = (?f ^^ count_list X k) 0" using val by auto
    show "exact_arithmetic L \<longrightarrow>
               (\<forall>(k, v)\<in>set m. v = real (count_list X k) / real (length X)) \<and>
               sum_list (map snd m) = 1"
      using ex by blast
  qed
next
  show "\<forall>path h. plot_categorical L X out pn = Inr (path, h) \<longrightarrow>
            (\<exists>X_prime. frequency_map L X = Inr X_prime \<and>
               rvs L [0..<length X_prime] (map snd X_prime) 100 = Inr (hist_values h) \<and>
               hist_range h = (0, length X_prime))"
    by (auto simp: plot_categorical_def split: option.splits sum.splits)
next
  show "a \<noteq> b \<longrightarrow>
      frequency_map example_libs [a, a, b] = Inr [(a, fl64 (2 / 3)), (b, fl64 (1 / 3))]"
    by (simp add: frequency_map_def dict_contains_def dict_getitem_def truediv_def ieee_thirds)
qed

theorem frequency_map_is_empirical_distribution_witness:
  "frequency_map example_libs [1, 1, 2 :: int] =
     Inr [(1, 6004799503160661 / 9007199254740992),
          (2, 6004799503160661 / 18014398509481984)] \<and>
   first_seen [1, 1, 2 :: int] = [1, 2] \<and>
   (\<exists>X_prime. frequency_map exact_libs [1, 1, 2 :: int] = Inr X_prime \<and>
      map fst X_prime = [1, 2] \<and> sum_list (map snd X_prime) = 1) \<and>
   (\<exists>h. plot_categorical example_libs [1, 1, 2] ''out/'' ''criterion'' =
      Inr (''out/criterion.png'', h) \<and> hist_range h = (0, 2))"
proof -
  have h: "[1, 1, 2 :: int] \<noteq> []" by simp
  have d: "(1 :: int) \<noteq> 2" by simp
  note t = frequency_map_is_empirical_distribution [OF h, where L = example_libs
      and a = "1 :: int" and b = 2 and out = "''out/''" and pn = "''criterion''"]
  from t d have f: "frequency_map example_libs [1, 1, 2 :: int] =
     Inr [(1, 6004799503160661 / 9007199254740992),
          (2, 6004799503160661 / 18014398509481984)]"
    by (simp add: ieee_thirds)
  have lib: "makedirs example_libs dir = None" "savefig example_libs p = None"
    "rvs example_libs xk pk n = Inr (replicate n 0)" for dir p xk pk n
    by (simp_all add: example_libs_def)
  have "\<exists>g. plot_categorical example_libs [1, 1, 2] ''out/'' ''criterion'' =
      Inr (''out/criterion.png'', g)"
    by (simp add: plot_categorical_def ensure_dir_def f lib)
  then obtain g where ph: "plot_categorical example_libs [1, 1, 2] ''out/'' ''criterion'' =
      Inr (''out/criterion.png'', g)" ..
  from t have "\<forall>path h. plot_categorical example_libs [1, 1, 2] ''out/'' ''criterion'' =
        Inr (path, h) \<longrightarrow>
      (\<exists>X_prime. frequency_map example_libs [1, 1, 2 :: int] = Inr X_prime \<and>
         rvs example_libs [0..<length X_prime] (map snd X_prime) 100 = Inr (hist_values h) \<and>
         hist_range h = (0, length X_prime))"
    by (rule conjunct2 [THEN conjunct1])
  with ph have "\<exists>X_prime. frequency_map example_libs [1, 1, 2 :: int] = Inr X_prime \<and>
         rvs example_libs [0..<length X_prime] (map snd X_prime) 100 = Inr (hist_values g) \<and>
         hist_range g = (0, length X_prime)"
    by simp
  with f have hr: "hist_range g = (0, 2)" by simp
  from frequency_map_is_empirical_distribution [OF h, where L = exact_libs]
  have "\<exists>X_prime. frequency_map exact_libs [1, 1, 2 :: int] = Inr X_prime \<and>
            map fst X_prime = first_seen [1, 1, 2 :: int] \<and>
            distinct (map fst X_prime) \<and>
            (\<forall>(k, v)\<in>set X_prime.
               v = ((\<lambda>s. fadd exact_libs s
                      (fdiv exact_libs 1 (to_float exact_libs (real (length [1, 1, 2 :: int])))))
                    ^^ count_list [1, 1, 2 :: int] k) 0) \<and>
            (exact_arithmetic exact_libs \<longrightarrow>
               (\<forall>(k, v)\<in>set X_prime.
                  v = real (count_list [1, 1, 2 :: int] k) / real (length [1, 1, 2 :: int])) \<and>
               sum_list (map snd X_prime) = 1)"
    by (rule conjunct1)
  then obtain m where c: "frequency_map exact_libs [1, 1, 2 :: int] = Inr m \<and>
            map fst m = first_seen [1, 1, 2 :: int] \<and>
            distinct (map fst m) \<and>
            (\<forall>(k, v)\<in>set m.
               v = ((\<lambda>s. fadd exact_libs s
                      (fdiv exact_libs 1 (to_float exact_libs (real (length [1, 1, 2 :: int])))))
                    ^^ count_list [1, 1, 2 :: int] k) 0) \<and>
            (exact_arithmetic exact_libs \<longrightarrow>
               (\<forall>(k, v)\<in>set m.
                  v = real (count_list [1, 1, 2 :: int] k) / real (length [1, 1, 2 :: int])) \<and>
               sum_list (map snd m) = 1)" ..
  from c have m1: "frequency_map exact_libs [1, 1, 2 :: int] = Inr m"
    and m2: "map fst m = first_seen [1, 1, 2 :: int]"
    by (rule conjunct1, rule conjunct2 [THEN conjunct1])
  from c exact_libs_arithmetic have m3: "sum_list (map snd m) = 1"
    by (elim conjE) (erule impE, assumption, erule conjE, assumption)
  have fs: "first_seen [1, 1, 2 :: int] = [1, 2]" by simp
  from ph hr have pc: "\<exists>h. plot_categorical example_libs [1, 1, 2] ''out/'' ''criterion'' =
      Inr (''out/criterion.png'', h) \<and> hist_range h = (0, 2)"
    by (intro exI [of _ g] conjI)
  from f fs m1 m2 m3 pc show ?thesis by (intro conjI exI [of _ m]) simp_all
qed
section \<open>What the numeric plotter draws\<close>

lemma lines_getitem:
  "list_getitem lines (int index) = (if index < 3 then Inr (lines ! index) else Inl IndexError)"
  by (simp add: list_getitem_def lines_def)

lemma strategies_loop_step:
  assumes "strategies_loop L hp ((index, s, smp) # rest) fig = Inr fig'"
  shows "\<exists>density arr. index < 3 \<and>
     strategies_loop L hp rest
       (fig\<lparr>ax0 := add_artist (ax0 fig)
               (PlotLine (X_values_plot L hp) density (lines ! index @ ''-'') (Some s)),
            ax1 := add_artist (ax1 fig)
               (StepLine (sort arr) (cdf_yvals L (length arr)) (lines ! index) (Some s))\<rparr>) = Inr fig'"
  using assms
  by (auto simp: lines_getitem Let_def split: sum.splits if_splits)

lemma strategies_loop_figure:
  assumes "strategies_loop L hp items fig = Inr fig'"
  shows "(\<forall>(index, s, smp)\<in>set items. index < 3) \<and>
    map style (artists (ax0 fig')) =
      map style (artists (ax0 fig)) @ map (\<lambda>(index, s, smp). lines ! index @ ''-'') items \<and>
    map label (artists (ax0 fig')) =
      map label (artists (ax0 fig)) @ map (\<lambda>(index, s, smp). Some s) items \<and>
    map xdata (artists (ax0 fig')) =
      map xdata (artists (ax0 fig)) @ replicate (length items) (X_values_plot L hp) \<and>
    map style (artists (ax1 fig')) =
      map style (artists (ax1 fig)) @ map (\<lambda>(index, s, smp). lines ! index) items \<and>
    map label (artists (ax1 fig')) =
      map label (artists (ax1 fig)) @ map (\<lambda>(index, s, smp). Some s) items \<and>
    legend (ax0 fig') = legend (ax0 fig) \<and> legend (ax1 fig') = legend (ax1 fig) \<and>
    xlim (ax0 fig') = xlim (ax0 fig)"
  using assms
proof (induction items arbitrary: fig)
  case Nil
  then show ?case by simp
next
  case (Cons item items)
  obtain index s smp where item: "item = (index, s, smp)" by (cases item)
  from strategies_loop_step [OF Cons.prems [unfolded item]] obtain density arr where
    i3: "index < 3" and
    run: "strategies_loop L hp items
       (fig\<lparr>ax0 := add_artist (ax0 fig)
               (PlotLine (X_values_plot L hp) density (lines ! index @ ''-'') (Some s)),
            ax1 := add_artist (ax1 fig)
               (StepLine (sort arr) (cdf_yvals L (length arr)) (lines ! index) (Some s))\<rparr>) = Inr fig'"
    by blast
  from Cons.IH [OF run] i3 item show ?case
    by (simp add: add_artist_def replicate_append_same)
qed

lemma add_original_points_figure:
  assumes "add_original_points L sd fig = Inr fig2"
  shows "(\<exists>extra. artists (ax0 fig2) = artists (ax0 fig) @ extra) \<and> ax1 fig2 = ax1 fig \<and>
    legend (ax0 fig2) = legend (ax0 fig) \<and> xlim (ax0 fig2) = xlim (ax0 fig)"
  using assms
  by (auto simp: add_original_points_def add_artist_def split: option.splits sum.splits)

lemma plot_numeric_stages:
  assumes "plot_numeric L hp sd out pn = Inr (path, fig)"
  shows "\<exists>fig1 fig2. strategies_loop L hp (enumerate 0 sd) subplots = Inr fig1 \<and>
    add_original_points L sd fig1 = Inr fig2 \<and>
    path = out @ pn @ ''.png'' \<and>
    ax0 fig = (ax0 fig2)\<lparr>xlim := Some (plot_range L hp)\<rparr> \<and>
    ax1 fig = (ax1 fig2)\<lparr>legend := Some ''upper left''\<rparr>"
  using assms
  by (auto simp: plot_numeric_def Let_def split: option.splits sum.splits if_splits)

lemma map_eq_nth:
  assumes "map f xs = map g ys" and "i < length ys"
  shows "f (xs ! i) = g (ys ! i)"
proof -
  from assms(1) have "length xs = length ys" by (rule map_eq_imp_length_eq)
  with assms(2) have "map f xs ! i = f (xs ! i)" "map g ys ! i = g (ys ! i)" by simp_all
  with assms(1) show ?thesis by simp
qed

lemma enumerate_bound_length:
  assumes "\<forall>(index, s, smp)\<in>set (enumerate 0 sd). index < n"
  shows "length sd \<le> n"
proof (rule ccontr)
  assume "\<not> length sd \<le> n"
  then have "(n, sd ! n) \<in> set (enumerate 0 sd)"
    by (simp add: in_set_enumerate_eq)
  with assms show False by (cases "sd ! n") auto
qed

lemma plot_numeric_summary:
  assumes "plot_numeric L hp sd out pn = Inr (path, fig)"
  shows "length sd \<le> 3 \<and> path = out @ pn @ ''.png'' \<and>
    legend (ax0 fig) = None \<and> legend (ax1 fig) = Some ''upper left'' \<and>
    xlim (ax0 fig) = Some (plot_range L hp) \<and>
    length sd \<le> length (artists (ax0 fig)) \<and> length (artists (ax1 fig)) = length sd \<and>
    (\<forall>i<length sd.
       style (artists (ax0 fig) ! i) = lines ! i @ ''-'' \<and>
       label (artists (ax0 fig) ! i) = Some (fst (sd ! i)) \<and>
       xdata (artists (ax0 fig) ! i) = X_values_plot L hp \<and>
       style (artists (ax1 fig) ! i) = lines ! i \<and>
       label (artists (ax1 fig) ! i) = Some (fst (sd ! i)))"
proof -
  from plot_numeric_stages [OF assms] obtain fig1 fig2 where
    loop: "strategies_loop L hp (enumerate 0 sd) subplots = Inr fig1"
    and pts: "add_original_points L sd fig1 = Inr fig2"
    and path: "path = out @ pn @ ''.png''"
    and a0: "ax0 fig = (ax0 fig2)\<lparr>xlim := Some (plot_range L hp)\<rparr>"
    and a1: "ax1 fig = (ax1 fig2)\<lparr>legend := Some ''upper left''\<rparr>"
    by blast
  let ?items = "enumerate 0 sd"
  from strategies_loop_figure [OF loop] have
    bound: "\<forall>(index, s, smp)\<in>set ?items. index < 3"
    and s0: "map style (artists (ax0 fig1)) = map (\<lambda>(index, s, smp). lines ! index @ ''-'') ?items"
    and l0: "map label (artists (ax0 fig1)) = map (\<lambda>(index, s, smp). Some s) ?items"
    and x0: "map xdata (artists (ax0 fig1)) = map (\<lambda>x. X_values_plot L hp) ?items"
    and s1: "map style (artists (ax1 fig1)) = map (\<lambda>(index, s, smp). lines ! index) ?items"
    and l1: "map label (artists (ax1 fig1)) = map (\<lambda>(index, s, smp). Some s) ?items"
    and g0: "legend (ax0 fig1) = None" and g1: "legend (ax1 fig1) = None"
    by (simp_all add: subplots_def empty_axes_def map_replicate_const)
  from add_original_points_figure [OF pts] obtain extra where
    e: "artists (ax0 fig2) = artists (ax0 fig1) @ extra" and
    b1: "ax1 fig2 = ax1 fig1" and g2: "legend (ax0 fig2) = legend (ax0 fig1)"
    by blast
  from s0 have len0: "length (artists (ax0 fig1)) = length sd"
    using map_eq_imp_length_eq by fastforce
  from s1 have len1: "length (artists (ax1 fig1)) = length sd"
    using map_eq_imp_length_eq by fastforce
  have nth: "style (artists (ax0 fig) ! i) = lines ! i @ ''-'' \<and>
       label (artists (ax0 fig) ! i) = Some (fst (sd ! i)) \<and>
       xdata (artists (ax0 fig) ! i) = X_values_plot L hp \<and>
       style (artists (ax1 fig) ! i) = lines ! i \<and>
       label (artists (ax1 fig) ! i) = Some (fst (sd ! i))" if i: "i < length sd" for i
  proof -
    from i have li: "i < length ?items" by simp
    from i have it: "?items ! i = (i, sd ! i)" by (simp add: nth_enumerate_eq)
    from i len0 e a0 have n0: "artists (ax0 fig) ! i = artists (ax0 fig1) ! i"
      by (simp add: nth_append)
    from b1 a1 have n1: "artists (ax1 fig) ! i = artists (ax1 fig1) ! i"
      by simp
    show ?thesis
      using map_eq_nth [OF s0 li] map_eq_nth [OF l0 li] map_eq_nth [OF x0 li]
        map_eq_nth [OF s1 li] map_eq_nth [OF l1 li] it n0 n1
      by (simp add: case_prod_beta)
  qed
  from enumerate_bound_length [OF bound] path a0 a1 g0 g1 g2 b1 e len0 len1 nth
  show ?thesis by simp
qed

lemma example_plot_returns:
  "\<exists>fig. plot_numeric example_libs example_hp example_data ''out/'' ''n_estimators'' =
     Inr (''out/n_estimators.png'', fig)"
  by (simp add: plot_numeric_def ensure_dir_def example_libs_def example_data_def
      add_original_points_def list_getitem_def lines_def example_hp_def Let_def)

lemma example_four_raises:
  "plot_numeric example_libs example_hp example_four ''out/'' ''n_estimators'' = Inl IndexError"
  by (simp add: plot_numeric_def ensure_dir_def example_libs_def example_four_def
      list_getitem_def lines_def example_hp_def Let_def)

lemma strategies_loop_beyond_palette:
  "3 \<le> index \<Longrightarrow>
   strategies_loop L hp ((index, s, smp) # rest) fig =
     (case kde_pdf L hp (hp_name hp) smp (X_values_plot L hp) of
        Inl e \<Rightarrow> Inl e
      | Inr density \<Rightarrow> Inl IndexError)"
  by (simp add: lines_getitem split: sum.splits)

section \<open>The colour palette\<close>

text \<open>
  Claim C3 fails on the code: the colour of a strategy is \<^verbatim>\<open>lines[index]\<close> with the
  three-element palette and no wrap-around, so the fourth strategy raises
  \<^verbatim>\<open>IndexError\<close>. With four strategies and libraries that succeed the call ends in
  that exception.
\<close>

theorem four_strategies_raise_IndexError:
  "plot_numeric example_libs example_hp example_four ''out/'' ''n_estimators'' = Inl IndexError"
  by (rule example_four_raises)

text \<open>
  Claim C3 as amended. The palette is red, blue, green, and the colour lookup succeeds
  exactly for the indices 0, 1 and 2. Whenever the numeric plotter returns, the mapping
  has at most three strategies, and the \<open>i\<close>-th strategy in mapping-iteration order is
  drawn on both subplots in the \<open>i\<close>-th colour under its own label. An iteration with
  index 3 or more raises \<^verbatim>\<open>IndexError\<close> once its density is computed, so with more than
  three strategies the call raises and returns no figure.
\<close>

theorem palette_serves_three_strategies:
  "lines = [''r'', ''b'', ''g''] \<and>
   (\<forall>index. list_getitem lines (int index) =
      (if index < 3 then Inr (lines ! index) else Inl IndexError)) \<and>
   (\<forall>path fig. plot_numeric L hp sd out pn = Inr (path, fig) \<longrightarrow>
      length sd \<le> 3 \<and>
      (\<forall>i<length sd.
         style (artists (ax0 fig) ! i) = lines ! i @ ''-'' \<and>
         label (artists (ax0 fig) ! i) = Some (fst (sd ! i)) \<and>
         style (artists (ax1 fig) ! i) = lines ! i \<and>
         label (artists (ax1 fig) ! i) = Some (fst (sd ! i)))) \<and>
   (\<forall>index s smp rest fig. 3 \<le> index \<longrightarrow>
      strategies_loop L hp ((index, s, smp) # rest) fig =
        (case kde_pdf L hp (hp_name hp) smp (X_values_plot L hp) of
           Inl e \<Rightarrow> Inl e
         | Inr density \<Rightarrow> Inl IndexError)) \<and>
   (3 < length sd \<longrightarrow> (\<exists>e. plot_numeric L hp sd out pn = Inl e))"
proof (intro conjI allI impI)
  show "lines = [''r'', ''b'', ''g'']" by (simp add: lines_def)
next
  fix index
  show "list_getitem lines (int index) =
      (if index < 3 then Inr (lines ! index) else Inl IndexError)"
    by (rule lines_getitem)
next
  fix path fig
  assume "plot_numeric L hp sd out pn = Inr (path, fig)"
  from plot_numeric_summary [OF this] show "length sd \<le> 3" by simp
next
  fix path fig i
  assume "plot_numeric L hp sd out pn = Inr (path, fig)" and "i < length sd"
  with plot_numeric_summary [of L hp sd out pn path fig]
  show "style (artists (ax0 fig) ! i) = lines ! i @ ''-''"
    and "label (artists (ax0 fig) ! i) = Some (fst (sd ! i))"
    and "style (artists (ax1 fig) ! i) = lines ! i"
    and "label (artists (ax1 fig) ! i) = Some (fst (sd ! i))"
    by simp_all
next
  fix index s smp rest fig
  assume "3 \<le> (index :: nat)"
  then show "strategies_loop L hp ((index, s, smp) # rest) fig =
        (case kde_pdf L hp (hp_name hp) smp (X_values_plot L hp) of
           Inl e \<Rightarrow> Inl e
         | Inr density \<Rightarrow> Inl IndexError)"
    by (rule strategies_loop_beyond_palette)
next
  assume long: "3 < length sd"
  show "\<exists>e. plot_numeric L hp sd out pn = Inl e"
  proof (cases "plot_numeric L hp sd out pn")
    case (Inl e)
    then show ?thesis by simp
  next
    case (Inr pf)
    obtain path fig where "pf = (path, fig)" by (cases pf)
    with Inr plot_numeric_summary [of L hp sd out pn path fig] long show ?thesis by simp
  qed
qed

theorem palette_serves_three_strategies_witness:
  "(\<exists>fig. plot_numeric example_libs example_hp example_data ''out/'' ''n_estimators'' =
       Inr (''out/n_estimators.png'', fig) \<and>
     style (artists (ax0 fig) ! 0) = ''r-'' \<and> label (artists (ax0 fig) ! 0) = Some ''gaussian_kde'' \<and>
     style (artists (ax0 fig) ! 1) = ''b-'' \<and> label (artists (ax0 fig) ! 1) = Some ''random_search'' \<and>
     style (artists (ax1 fig) ! 0) = ''r'' \<and> style (artists (ax1 fig) ! 1) = ''b'') \<and>
   (\<exists>e. plot_numeric example_libs example_hp example_four ''out/'' ''n_estimators'' = Inl e)"
proof -
  note t = palette_serves_three_strategies
  from example_plot_returns obtain fig where
    r: "plot_numeric example_libs example_hp example_data ''out/'' ''n_estimators'' =
       Inr (''out/n_estimators.png'', fig)"
    by blast
  have len: "length example_data = 2" by (simp add: example_data_def)
  from t [of example_libs example_hp example_data "''out/''" "''n_estimators''"] r
  have nth: "\<forall>i<length example_data.
         style (artists (ax0 fig) ! i) = lines ! i @ ''-'' \<and>
         label (artists (ax0 fig) ! i) = Some (fst (example_data ! i)) \<and>
         style (artists (ax1 fig) ! i) = lines ! i \<and>
         label (artists (ax1 fig) ! i) = Some (fst (example_data ! i))"
    by blast
  from nth len have
    "style (artists (ax0 fig) ! 0) = ''r-''" "label (artists (ax0 fig) ! 0) = Some ''gaussian_kde''"
    "style (artists (ax0 fig) ! 1) = ''b-''" "label (artists (ax0 fig) ! 1) = Some ''random_search''"
    "style (artists (ax1 fig) ! 0) = ''r''" "style (artists (ax1 fig) ! 1) = ''b''"
    by (simp_all add: lines_def example_data_def)
  moreover have "3 < length example_four" by (simp add: example_four_def)
  with t [of example_libs example_hp example_four "''out/''" "''n_estimators''"]
  have "\<exists>e. plot_numeric example_libs example_hp example_four ''out/'' ''n_estimators'' = Inl e"
    by blast
  ultimately show ?thesis using r by blast
qed

section \<open>Legends\<close>

text \<open>
  Claim C4 fails on the code: only \<^verbatim>\<open>axes[1].legend(loc='upper left')\<close> is called. In the
  end-to-end scenario the saved figure has a legend on the distribution-function subplot
  and none on the density subplot.
\<close>

theorem density_subplot_has_no_legend:
  "legends (plot_numeric example_libs example_hp example_data ''out/'' ''n_estimators'') =
     Some (None, Some ''upper left'')"
proof -
  from example_plot_returns obtain fig where
    r: "plot_numeric example_libs example_hp example_data ''out/'' ''n_estimators'' =
       Inr (''out/n_estimators.png'', fig)"
    by blast
  from plot_numeric_summary [OF r] show ?thesis
    by (simp add: legends_def r)
qed

text \<open>
  Claim C4 as amended. Whenever the numeric plotter returns, a legend is attached to the
  second subplot (the empirical distribution functions), at the upper left, and no legend is
  attached to the first subplot (the densities). The second subplot holds one labelled
  series per strategy, in mapping order, so its legend shows one entry per strategy.
\<close>

theorem legend_on_cdf_subplot_only:
  assumes "plot_numeric L hp sd out pn = Inr (path, fig)"
  shows "legend (ax1 fig) = Some ''upper left'' \<and> legend (ax0 fig) = None \<and>
    length (artists (ax1 fig)) = length sd \<and>
    (\<forall>i<length sd. label (artists (ax1 fig) ! i) = Some (fst (sd ! i)))"
  using plot_numeric_summary [OF assms] by simp

theorem legend_on_cdf_subplot_only_witness:
  "\<exists>fig. plot_numeric example_libs example_hp example_data ''out/'' ''n_estimators'' =
       Inr (''out/n_estimators.png'', fig) \<and>
     legend (ax1 fig) = Some ''upper left'' \<and> legend (ax0 fig) = None \<and>
     length (artists (ax1 fig)) = 2 \<and>
     label (artists (ax1 fig) ! 0) = Some ''gaussian_kde'' \<and>
     label (artists (ax1 fig) ! 1) = Some ''random_search''"
proof -
  from example_plot_returns obtain fig where
    r: "plot_numeric example_libs example_hp example_data ''out/'' ''n_estimators'' =
       Inr (''out/n_estimators.png'', fig)"
    by blast
  from legend_on_cdf_subplot_only [OF r] have
    "legend (ax1 fig) = Some ''upper left''" "legend (ax0 fig) = None"
    "length (artists (ax1 fig)) = 2"
    "label (artists (ax1 fig) ! 0) = Some ''gaussian_kde''"
    "label (artists (ax1 fig) ! 1) = Some ''random_search''"
    by (simp_all add: example_data_def)
  with r show ?thesis by blast
qed

section \<open>Plotting range and grid\<close>
















end
